theory Spec2Isabelle
  imports Complex_Main
begin

section \<open>Conventions of the embedding\<close>

text \<open>
  The development embeds the numerical core of \<^verbatim>\<open>pygmi/raster/cooper.py\<close>:
  the visibility filter (\<^verbatim>\<open>visibility2d\<close>, \<^verbatim>\<open>__visible1\<close>, \<^verbatim>\<open>__visible2\<close>) and the
  vertical derivative (\<^verbatim>\<open>vertical\<close>, \<^verbatim>\<open>nextpow2\<close>).

  \<^item> A numpy array of floats is a list of rows of real numbers. Arithmetic is exact:
    rounding, NaN and infinities are not represented.
  \<^item> A numpy masked array is a record of its underlying buffer and its boolean mask.
  \<^item> Python integers are \<open>int\<close>; where the source only ever holds a non-negative
    value (a shape, a loop index) the model uses \<open>nat\<close>.
  \<^item> An exception is a value \<open>Inl e\<close> of the sum type \<open>error + 'a\<close>.
\<close>

datatype error = IndexError | ValueError | ZeroDivisionError

definition bind_e :: "error + 'a \<Rightarrow> ('a \<Rightarrow> error + 'b) \<Rightarrow> error + 'b" where
  "bind_e m f = (case m of Inl e \<Rightarrow> Inl e | Inr v \<Rightarrow> f v)"

text \<open>Indexing a one-dimensional array: a negative index counts from the end, an index
  outside the array raises IndexError.\<close>

definition py_get :: "'a list \<Rightarrow> int \<Rightarrow> error + 'a" where
  "py_get xs i =
     (if 0 \<le> i \<and> i < int (length xs) then Inr (xs ! nat i)
      else if - int (length xs) \<le> i \<and> i < 0 then Inr (xs ! nat (int (length xs) + i))
      else Inl IndexError)"

section \<open>The two ray sweeps\<close>

text \<open>
  \<^verbatim>\<open>__visible1(dat, nr, cp, dh)\<close> walks from the centre \<open>cpn = cp - 1\<close> towards the end of
  the window, \<^verbatim>\<open>__visible2(dat, cp, dh)\<close> towards its start. The loop state is the pair
  \<open>(num, thetamax)\<close>; the loop functions below take the list of indices the \<^verbatim>\<open>for\<close>
  statement ranges over.
\<close>

fun visible1_loop ::
  "real list \<Rightarrow> int \<Rightarrow> real \<Rightarrow> int list \<Rightarrow> nat \<times> real \<Rightarrow> error + nat \<times> real" where
  "visible1_loop dat cpn dh [] st = Inr st"
| "visible1_loop dat cpn dh (i # rest) (num, thetamax) =
     bind_e (py_get dat i) (\<lambda>di.
     bind_e (py_get dat cpn) (\<lambda>dc.
       let theta = (di - dc - dh) / real_of_int (i - cpn)
       in if theta \<ge> thetamax then visible1_loop dat cpn dh rest (num + 1, theta)
          else visible1_loop dat cpn dh rest (num, thetamax)))"

definition visible1 :: "real list \<Rightarrow> int \<Rightarrow> int \<Rightarrow> real \<Rightarrow> error + nat" where
  "visible1 dat nr cp dh =
     (if cp < nr - 1 \<and> dat \<noteq> [] then
        (let cpn = cp - 1 in
         bind_e (py_get dat (cpn + 1)) (\<lambda>d1.
         bind_e (py_get dat cpn) (\<lambda>dc.
           let thetamax = d1 - dc - dh in
           bind_e (visible1_loop dat cpn dh [cpn + 2 .. nr - 1] (2, thetamax))
             (\<lambda>st. Inr (fst st)))))
      else Inr 1)"

fun visible2_loop ::
  "real list \<Rightarrow> int \<Rightarrow> real \<Rightarrow> int list \<Rightarrow> nat \<times> real \<Rightarrow> error + nat \<times> real" where
  "visible2_loop dat cpn dh [] st = Inr st"
| "visible2_loop dat cpn dh (i # rest) (num, thetamax) =
     bind_e (py_get dat i) (\<lambda>di.
     bind_e (py_get dat cpn) (\<lambda>dc.
       let theta = (di - dc - dh) / real_of_int (cpn - i)
       in if theta \<ge> thetamax then visible2_loop dat cpn dh rest (num + 1, theta)
          else visible2_loop dat cpn dh rest (num, thetamax)))"

definition visible2 :: "real list \<Rightarrow> int \<Rightarrow> real \<Rightarrow> error + nat" where
  "visible2 dat cp dh =
     (if cp > 2 \<and> dat \<noteq> [] then
        (let cpn = cp - 1 in
         bind_e (py_get dat (cpn - 1)) (\<lambda>d1.
         bind_e (py_get dat cpn) (\<lambda>dc.
           let thetamax = d1 - dc - dh in
           bind_e (visible2_loop dat cpn dh (rev [0 .. cpn - 2]) (1, thetamax))
             (\<lambda>st. Inr (fst st)))))
      else Inr 0)"

subsection \<open>The naive re-scan of a ray\<close>

text \<open>
  The reference against which the sweeps are compared follows the description of the
  horizon test: the cells of a ray are listed from the one next to the centre outwards,
  step \<open>i = k + 1\<close> (the cell \<open>ray ! k\<close>) has the angle \<open>(value i - centre - dh) / i\<close>, and a step is
  visible when its angle is at least the angle of every closer step. The maximum over the
  closer steps is recomputed from scratch for every step; the first step has no closer
  step and is visible.
\<close>

definition spec_angles :: "real \<Rightarrow> real \<Rightarrow> real list \<Rightarrow> real list" where
  "spec_angles centre dh ray =
     map (\<lambda>k. (ray ! k - centre - dh) / real (k + 1)) [0 ..< length ray]"

definition naive_visible :: "real list \<Rightarrow> nat \<Rightarrow> bool" where
  "naive_visible thetas i =
     (case take i thetas of [] \<Rightarrow> True | t # ts \<Rightarrow> fold max ts t \<le> thetas ! i)"

definition naive_count :: "real list \<Rightarrow> nat" where
  "naive_count thetas = length (filter (naive_visible thetas) [0 ..< length thetas])"

text \<open>
  The streaming horizon test on a list of angles, without the array reads: the state
  \<open>(num, thetamax)\<close> of the two loops above, stepped over the angles in the order the
  loops meet them. It is the link between the loops and the naive re-scan.
\<close>

fun running_max :: "real list \<Rightarrow> nat \<times> real \<Rightarrow> nat \<times> real" where
  "running_max [] st = st"
| "running_max (t # ts) (num, thetamax) =
     (if t \<ge> thetamax then running_max ts (num + 1, t) else running_max ts (num, thetamax))"

section \<open>The visibility filter\<close>

record masked_array =
  ma_data :: "real list list"
  ma_mask :: "bool list list"

text \<open>An array is well formed when it has \<open>nr\<close> rows of \<open>nc\<close> cells each.\<close>

definition rect :: "'a list list \<Rightarrow> nat \<Rightarrow> nat \<Rightarrow> bool" where
  "rect a nr nc = (length a = nr \<and> list_all (\<lambda>r. length r = nc) a)"

definition np_shape :: "'a list list \<Rightarrow> nat \<times> nat" where
  "np_shape a = (length a, case a of [] \<Rightarrow> 0 | r # _ \<Rightarrow> length r)"

text \<open>A slice \<^verbatim>\<open>xs[a:b]\<close>: a negative bound counts from the end, and both bounds are
  clipped to the array. A slice never raises.\<close>

definition py_bound :: "nat \<Rightarrow> int \<Rightarrow> nat" where
  "py_bound n k = (if k < 0 then nat (max 0 (int n + k)) else min n (nat k))"

definition py_slice :: "'a list \<Rightarrow> int \<Rightarrow> int \<Rightarrow> 'a list" where
  "py_slice xs a b =
     (let lo = py_bound (length xs) a; hi = py_bound (length xs) b
      in take (hi - lo) (drop lo xs))"

definition py_slice2 :: "'a list list \<Rightarrow> int \<Rightarrow> int \<Rightarrow> int \<Rightarrow> int \<Rightarrow> 'a list list" where
  "py_slice2 m r0 r1 c0 c1 = map (\<lambda>row. py_slice row c0 c1) (py_slice m r0 r1)"

text \<open>\<^verbatim>\<open>i in range(a, b)\<close> for an index \<open>i\<close> of an array.\<close>

definition in_range :: "nat \<Rightarrow> int \<Rightarrow> int \<Rightarrow> bool" where
  "in_range i a b = (a \<le> int i \<and> int i < b)"

text \<open>
  \<^verbatim>\<open>data.mean()\<close> of a masked array is the mean of the cells that are not masked. Here
  it is the exact mean; numpy returns it rounded to a double, so that the mean of cells
  that all hold \<open>c\<close> need not be \<open>c\<close> in the program. Nothing below uses more of the
  mean than that it is the one number every masked cell is filled with. When every cell is
  masked numpy returns the masked constant and the fill stores NaN, which the model does
  not represent; all output cells are masked in that case.
\<close>

definition unmasked :: "masked_array \<Rightarrow> real list" where
  "unmasked a =
     concat (map2 (\<lambda>row mrow. map fst (filter (\<lambda>(v, m). \<not> m) (zip row mrow)))
                  (ma_data a) (ma_mask a))"

definition ma_mean :: "masked_array \<Rightarrow> real" where
  "ma_mean a = sum_list (unmasked a) / real (length (unmasked a))"

text \<open>\<^verbatim>\<open>data[mask] = mean\<close> on the underlying buffer.\<close>

definition fill_masked :: "real list list \<Rightarrow> bool list list \<Rightarrow> real \<Rightarrow> real list list" where
  "fill_masked d m v = map2 (\<lambda>row mrow. map2 (\<lambda>x b. if b then v else x) row mrow) d m"

text \<open>
  Every directional array starts as \<^verbatim>\<open>np.zeros([nr, nc])\<close> and each loop writes every cell
  of its index range once, from the data alone; \<open>fill2d\<close> builds such an array from the
  function that gives the cell \<open>(i, j)\<close>, and raises when the computation of a cell does.
\<close>

primrec sequence_e :: "(error + 'a) list \<Rightarrow> error + 'a list" where
  "sequence_e [] = Inr []"
| "sequence_e (x # xs) =
     bind_e x (\<lambda>v. bind_e (sequence_e xs) (\<lambda>vs. Inr (v # vs)))"

definition fill2d :: "nat \<Rightarrow> nat \<Rightarrow> (nat \<Rightarrow> nat \<Rightarrow> error + 'a) \<Rightarrow> error + 'a list list" where
  "fill2d nr nc f = sequence_e (map (\<lambda>i. sequence_e (map (\<lambda>j. f i j) [0 ..< nc])) [0 ..< nr])"

definition tabulate2d :: "nat \<Rightarrow> nat \<Rightarrow> (nat \<Rightarrow> nat \<Rightarrow> 'a) \<Rightarrow> 'a list list" where
  "tabulate2d nr nc f = map (\<lambda>i. map (\<lambda>j. f i j) [0 ..< nc]) [0 ..< nr]"

definition as_float :: "error + nat \<Rightarrow> error + real" where
  "as_float r = bind_e r (\<lambda>n. Inr (real n))"

text \<open>The four windows through the cell \<open>(i, j)\<close>:
  \<^verbatim>\<open>data[i-w2:i+w2+1, j]\<close>, \<^verbatim>\<open>data[i, j-w2:j+w2+1]\<close>, and the two diagonals
  \<^verbatim>\<open>data[i-w2+k, j-w2+k]\<close> and \<^verbatim>\<open>data[i+w2-k, j-w2+k]\<close> for \<^verbatim>\<open>k in range(wsize)\<close>.\<close>

definition window_col :: "real list list \<Rightarrow> nat \<Rightarrow> nat \<Rightarrow> nat \<Rightarrow> real list" where
  "window_col d i j w2 =
     map (\<lambda>row. row ! j) (py_slice d (int i - int w2) (int i + int w2 + 1))"

definition window_row :: "real list list \<Rightarrow> nat \<Rightarrow> nat \<Rightarrow> nat \<Rightarrow> real list" where
  "window_row d i j w2 = py_slice (d ! i) (int j - int w2) (int j + int w2 + 1)"

definition window_diag1 :: "real list list \<Rightarrow> nat \<Rightarrow> nat \<Rightarrow> nat \<Rightarrow> nat \<Rightarrow> real list" where
  "window_diag1 d i j w2 wsize = map (\<lambda>k. d ! (i - w2 + k) ! (j - w2 + k)) [0 ..< wsize]"

definition window_diag2 :: "real list list \<Rightarrow> nat \<Rightarrow> nat \<Rightarrow> nat \<Rightarrow> nat \<Rightarrow> real list" where
  "window_diag2 d i j w2 wsize = map (\<lambda>k. d ! (i + w2 - k) ! (j - w2 + k)) [0 ..< wsize]"

text \<open>The eight directional arrays \<^verbatim>\<open>vn, vs, ve, vw, vd1, vd2, vd3, vd4\<close>, over the
  filled data \<open>d\<close> of shape \<open>(nr, nc)\<close>, with \<open>wsize\<close> already made non-negative.\<close>

definition vis_vn :: "real list list \<Rightarrow> nat \<Rightarrow> nat \<Rightarrow> int \<Rightarrow> nat \<Rightarrow> real \<Rightarrow> error + real list list" where
  "vis_vn d nr nc wsize w2 dh =
     fill2d nr nc (\<lambda>i j.
       if in_range j 0 (int nc) \<and> in_range i (int w2) (int nr - int w2)
       then as_float (visible1 (window_col d i j w2) wsize (int w2 + 1) dh) else Inr 0)"

definition vis_vs :: "real list list \<Rightarrow> nat \<Rightarrow> nat \<Rightarrow> int \<Rightarrow> nat \<Rightarrow> real \<Rightarrow> error + real list list" where
  "vis_vs d nr nc wsize w2 dh =
     fill2d nr nc (\<lambda>i j.
       if in_range j 0 (int nc) \<and> in_range i (int w2) (int nr - int w2)
       then as_float (visible2 (window_col d i j w2) (int w2 + 1) dh) else Inr 0)"

definition vis_ve :: "real list list \<Rightarrow> nat \<Rightarrow> nat \<Rightarrow> int \<Rightarrow> nat \<Rightarrow> real \<Rightarrow> error + real list list" where
  "vis_ve d nr nc wsize w2 dh =
     fill2d nr nc (\<lambda>i j.
       if in_range j (int w2) (int nc - int w2) \<and> in_range i 0 (int nr)
       then as_float (visible1 (window_row d i j w2) wsize (int w2 + 1) dh) else Inr 0)"

definition vis_vw :: "real list list \<Rightarrow> nat \<Rightarrow> nat \<Rightarrow> int \<Rightarrow> nat \<Rightarrow> real \<Rightarrow> error + real list list" where
  "vis_vw d nr nc wsize w2 dh =
     fill2d nr nc (\<lambda>i j.
       if in_range j (int w2) (int nc - int w2) \<and> in_range i 0 (int nr)
       then as_float (visible2 (window_row d i j w2) (int w2 + 1) dh) else Inr 0)"

definition vis_vd1 :: "real list list \<Rightarrow> nat \<Rightarrow> nat \<Rightarrow> int \<Rightarrow> nat \<Rightarrow> real \<Rightarrow> error + real list list" where
  "vis_vd1 d nr nc wsize w2 dh =
     fill2d nr nc (\<lambda>i j.
       if in_range j (int w2) (int nc - int w2) \<and> in_range i (int w2) (int nr - int w2)
       then as_float (visible1 (window_diag1 d i j w2 (nat wsize)) wsize (int w2 + 1) dh)
       else Inr 0)"

definition vis_vd2 :: "real list list \<Rightarrow> nat \<Rightarrow> nat \<Rightarrow> int \<Rightarrow> nat \<Rightarrow> real \<Rightarrow> error + real list list" where
  "vis_vd2 d nr nc wsize w2 dh =
     fill2d nr nc (\<lambda>i j.
       if in_range j (int w2) (int nc - int w2) \<and> in_range i (int w2) (int nr - int w2)
       then as_float (visible2 (window_diag1 d i j w2 (nat wsize)) (int w2 + 1) dh)
       else Inr 0)"

definition vis_vd3 :: "real list list \<Rightarrow> nat \<Rightarrow> nat \<Rightarrow> int \<Rightarrow> nat \<Rightarrow> real \<Rightarrow> error + real list list" where
  "vis_vd3 d nr nc wsize w2 dh =
     fill2d nr nc (\<lambda>i j.
       if in_range j (int w2) (int nc - int w2) \<and> in_range i (int w2) (int nr - int w2)
       then as_float (visible1 (window_diag2 d i j w2 (nat wsize)) wsize (int w2 + 1) dh)
       else Inr 0)"

definition vis_vd4 :: "real list list \<Rightarrow> nat \<Rightarrow> nat \<Rightarrow> int \<Rightarrow> nat \<Rightarrow> real \<Rightarrow> error + real list list" where
  "vis_vd4 d nr nc wsize w2 dh =
     fill2d nr nc (\<lambda>i j.
       if in_range j (int w2) (int nc - int w2) \<and> in_range i (int w2) (int nr - int w2)
       then as_float (visible2 (window_diag2 d i j w2 (nat wsize)) (int w2 + 1) dh)
       else Inr 0)"

text \<open>\<^verbatim>\<open>np.std(xs, ddof=1)\<close>.\<close>

definition np_std_ddof1 :: "real list \<Rightarrow> real" where
  "np_std_ddof1 xs =
     (let m = sum_list xs / real (length xs)
      in sqrt (sum_list (map (\<lambda>x. (x - m)\<^sup>2) xs) / (real (length xs) - 1)))"

text \<open>The aggregation of the eight arrays: the total, the standard deviation of the eight
  counts of a cell, and the length of the vector sum.\<close>

definition vis_total :: "real list list list \<Rightarrow> nat \<Rightarrow> nat \<Rightarrow> real list list" where
  "vis_total vs nr nc = tabulate2d nr nc (\<lambda>i j. sum_list (map (\<lambda>v. v ! i ! j) vs))"

definition vis_std :: "real list list list \<Rightarrow> nat \<Rightarrow> nat \<Rightarrow> real list list" where
  "vis_std vs nr nc = tabulate2d nr nc (\<lambda>i j. np_std_ddof1 (map (\<lambda>v. v ! i ! j) vs))"

definition vis_resultant ::
  "real list list \<Rightarrow> real list list \<Rightarrow> real list list \<Rightarrow> real list list \<Rightarrow>
   real list list \<Rightarrow> real list list \<Rightarrow> real list list \<Rightarrow> real list list \<Rightarrow>
   nat \<Rightarrow> nat \<Rightarrow> real list list" where
  "vis_resultant vn vs ve vw vd1 vd2 vd3 vd4 nr nc =
     (let dtr = pi / 180; c45 = cos (45 * dtr); s45 = sin (45 * dtr)
      in tabulate2d nr nc (\<lambda>i j.
           let vsumx = ve ! i ! j - vw ! i ! j + vd1 ! i ! j * c45 - vd2 ! i ! j * c45
                       + vd3 ! i ! j * c45 - vd4 ! i ! j * c45;
               vsumy = vn ! i ! j - vs ! i ! j + vd1 ! i ! j * s45 - vd2 ! i ! j * s45
                       - vd3 ! i ! j * s45 + vd4 ! i ! j * s45
           in sqrt (vsumx * vsumx + vsumy * vsumy)))"

text \<open>
  The result of \<^verbatim>\<open>visibility2d\<close>: the three masked arrays it returns and the state of the
  caller's masked array when the call returns. \<^verbatim>\<open>data = data.data\<close> is the caller's own
  buffer (a view, not a copy) and \<^verbatim>\<open>data[mask] = mean\<close> writes to it; \<^verbatim>\<open>mask\<close> is the
  caller's mask, which is read (for the mean, the fill and the three slices that are copied
  into the masks of the outputs) and never assigned. The progress iterator \<^verbatim>\<open>piter\<close> yields
  the elements of its range in order and is left out.
\<close>

record vis_result =
  vtot :: masked_array
  vstd :: masked_array
  vsum :: masked_array
  caller_data :: "real list list"
  caller_mask :: "bool list list"

definition visibility2d :: "masked_array \<Rightarrow> int \<Rightarrow> real \<Rightarrow> error + vis_result" where
  "visibility2d data wsize0 dh =
     (let (nr, nc) = np_shape (ma_data data);
          wsize = abs wsize0;
          w2 = nat (wsize div 2);
          mask = ma_mask data;
          mean = ma_mean data;
          d = fill_masked (ma_data data) mask mean
      in
      bind_e (vis_vn d nr nc wsize w2 dh) (\<lambda>vn.
      bind_e (vis_vs d nr nc wsize w2 dh) (\<lambda>vs.
      bind_e (vis_ve d nr nc wsize w2 dh) (\<lambda>ve.
      bind_e (vis_vw d nr nc wsize w2 dh) (\<lambda>vw.
      bind_e (vis_vd1 d nr nc wsize w2 dh) (\<lambda>vd1.
      bind_e (vis_vd2 d nr nc wsize w2 dh) (\<lambda>vd2.
      bind_e (vis_vd3 d nr nc wsize w2 dh) (\<lambda>vd3.
      bind_e (vis_vd4 d nr nc wsize w2 dh) (\<lambda>vd4.
        let trim = (\<lambda>a. py_slice2 a (int w2) (int nr - int w2) (int w2) (int nc - int w2));
            omask = py_slice2 mask (int w2) (- int w2) (int w2) (- int w2);
            vtot = trim (vis_total [vn, vs, ve, vw, vd1, vd2, vd3, vd4] nr nc);
            vstd = trim (vis_std [vn, vs, ve, vw, vd1, vd2, vd3, vd4] nr nc);
            vsum = trim (vis_resultant vn vs ve vw vd1 vd2 vd3 vd4 nr nc)
        in Inr \<lparr> vtot = \<lparr> ma_data = vtot, ma_mask = omask \<rparr>,
                 vstd = \<lparr> ma_data = vstd, ma_mask = omask \<rparr>,
                 vsum = \<lparr> ma_data = vsum, ma_mask = omask \<rparr>,
                 caller_data = d,
                 caller_mask = mask \<rparr>)))))))))"

section \<open>The vertical derivative\<close>

text \<open>
  \<^verbatim>\<open>nextpow2(n)\<close> is \<^verbatim>\<open>np.ceil(np.log2(n))\<close>: the least \<open>m\<close> with \<open>n \<le> 2 ^ m\<close>, for \<open>n \<ge> 1\<close>.
\<close>

function nextpow2 :: "nat \<Rightarrow> nat" where
  "nextpow2 n = (if n \<le> 1 then 0 else Suc (nextpow2 ((n + 1) div 2)))"
  by pat_completeness auto
termination
  by (relation "measure id") auto

declare nextpow2.simps [simp del]

text \<open>
  \<^verbatim>\<open>np.ma.median(data)\<close>: the median of the cells that are not masked. When every cell is
  masked the result is the masked constant; it is then not used, since every cell of
  \<open>z\<close> is masked and filled with 0.
\<close>

definition ma_median :: "masked_array \<Rightarrow> real" where
  "ma_median a =
     (let s = sort (unmasked a); k = length s
      in if odd k then s ! (k div 2) else (s ! (k div 2 - 1) + s ! (k div 2)) / 2)"

text \<open>\<^verbatim>\<open>z = data - median\<close> with the masked cells filled with 0.\<close>

definition median_removed :: "masked_array \<Rightarrow> real list list" where
  "median_removed a =
     map2 (\<lambda>row mrow. map2 (\<lambda>v m. if m then 0 else v - ma_median a) row mrow)
          (ma_data a) (ma_mask a)"

text \<open>\<^verbatim>\<open>np.pad(z, [[rb, ra], [cb, ca]], 'edge')\<close> of an array with at least one row and one
  column.\<close>

definition pad_edge :: "'a list \<Rightarrow> nat \<Rightarrow> nat \<Rightarrow> 'a list" where
  "pad_edge xs before after = replicate before (hd xs) @ xs @ replicate after (last xs)"

definition pad_edge2 :: "'a list list \<Rightarrow> nat \<Rightarrow> nat \<Rightarrow> nat \<Rightarrow> nat \<Rightarrow> 'a list list" where
  "pad_edge2 z rb ra cb ca = pad_edge (map (\<lambda>row. pad_edge row cb ca) z) rb ra"

text \<open>
  The discrete Fourier transforms of numpy, by the formulas of its documentation:
  \<^verbatim>\<open>fft2\<close> sums \<open>a[m, n] * exp (- 2 pi i (k m / M + l n / N))\<close>, \<^verbatim>\<open>ifft2\<close> sums with the
  opposite sign and divides by \<open>M N\<close>. \<^verbatim>\<open>fftshift\<close> rolls every axis by half its length, so
  that the entry 0 moves to the index \<open>n div 2\<close>; it returns a new array.
\<close>

definition fft2 :: "complex list list \<Rightarrow> complex list list" where
  "fft2 a =
     (let (M, N) = np_shape a
      in tabulate2d M N (\<lambda>k l.
           \<Sum>m < M. \<Sum>n < N.
             a ! m ! n * cis (- 2 * pi * (real k * real m / real M + real l * real n / real N))))"

definition ifft2 :: "complex list list \<Rightarrow> complex list list" where
  "ifft2 a =
     (let (M, N) = np_shape a
      in tabulate2d M N (\<lambda>k l.
           (\<Sum>m < M. \<Sum>n < N.
             a ! m ! n * cis (2 * pi * (real k * real m / real M + real l * real n / real N)))
           / of_nat (M * N)))"

definition fftshift1 :: "'a list \<Rightarrow> 'a list" where
  "fftshift1 xs = rotate (length xs - length xs div 2) xs"

definition fftshift :: "'a list list \<Rightarrow> 'a list list" where
  "fftshift a = fftshift1 (map fftshift1 a)"

text \<open>
  The factor of the bin \<open>(i, j)\<close> in the weighting loop:
  \<^verbatim>\<open>wn = 2.0*np.pi/(xint*(npts-1))\<close>, \<^verbatim>\<open>cx = npts/2+1\<close>, \<^verbatim>\<open>freqx = (i+1-cx)*wn\<close>,
  \<^verbatim>\<open>freqy = (j+1-cy)*wn\<close>, \<^verbatim>\<open>freq = np.sqrt(freqx*freqx+freqy*freqy)\<close>. The division is the
  one of \<open>wn\<close>, before the loop; it raises ZeroDivisionError when \<open>xint * (npts - 1) = 0\<close>,
  which the callers below test.
\<close>

definition radial_freq :: "nat \<Rightarrow> int \<Rightarrow> nat \<Rightarrow> nat \<Rightarrow> real" where
  "radial_freq npts xint i j =
     (let wn = 2 * pi / real_of_int (xint * (int npts - 1));
          cx = real npts / 2 + 1;
          cy = cx;
          freqx = (real i + 1 - cx) * wn;
          freqy = (real j + 1 - cy) * wn
      in sqrt (freqx * freqx + freqy * freqy))"

text \<open>The side of the padded square and the four pad widths
  \<open>(rdiff, rdiff2, cdiff, cdiff2)\<close>.\<close>

definition vertical_npts :: "nat \<Rightarrow> nat \<Rightarrow> nat option \<Rightarrow> nat" where
  "vertical_npts nr nc npts =
     (case npts of None \<Rightarrow> 2 ^ nextpow2 (max nr nc) | Some n \<Rightarrow> n)"

definition vertical_pads :: "nat \<Rightarrow> nat \<Rightarrow> nat \<Rightarrow> int \<times> int \<times> int \<times> int" where
  "vertical_pads nr nc npts =
     (let cdiff = (int npts - int nc) div 2;
          rdiff = (int npts - int nr) div 2;
          cdiff2 = int npts - cdiff - int nc;
          rdiff2 = int npts - rdiff - int nr
      in (rdiff, rdiff2, cdiff, cdiff2))"

text \<open>The array \<^verbatim>\<open>f = np.fft.fft2(data1)\<close> of \<^verbatim>\<open>vertical\<close>: the transform of the padded
  field, for an input that \<^verbatim>\<open>np.pad\<close> accepts.\<close>

definition vertical_fft :: "masked_array \<Rightarrow> nat option \<Rightarrow> complex list list" where
  "vertical_fft data npts0 =
     (let (nr, nc) = np_shape (ma_data data);
          npts = vertical_npts nr nc npts0;
          (rdiff, rdiff2, cdiff, cdiff2) = vertical_pads nr nc npts
      in fft2 (map (map complex_of_real)
                 (pad_edge2 (median_removed data)
                    (nat rdiff) (nat rdiff2) (nat cdiff) (nat cdiff2))))"

text \<open>
  \<^verbatim>\<open>vertical(data, npts, xint)\<close> up to the array \<open>fz\<close> that is handed to \<^verbatim>\<open>ifft2\<close>. An empty
  array is refused by \<^verbatim>\<open>np.pad\<close> or by \<^verbatim>\<open>fft2\<close>, and a negative pad width by \<^verbatim>\<open>np.pad\<close>
  (ValueError). In the loop
  \<^verbatim>\<open>fz\<close> is the array that \<^verbatim>\<open>fft2\<close> returned and \<^verbatim>\<open>f\<close> is its shifted copy; every entry
  of \<^verbatim>\<open>fz\<close> is overwritten by \<^verbatim>\<open>f[i, j]*freq\<close>.
\<close>

definition vertical_weighted :: "masked_array \<Rightarrow> nat option \<Rightarrow> int \<Rightarrow> error + complex list list" where
  "vertical_weighted data npts0 xint =
     (let (nr, nc) = np_shape (ma_data data);
          z = median_removed data;
          npts = vertical_npts nr nc npts0;
          (rdiff, rdiff2, cdiff, cdiff2) = vertical_pads nr nc npts
      in if nr = 0 \<or> nc = 0 then Inl ValueError
         else if rdiff < 0 \<or> rdiff2 < 0 \<or> cdiff < 0 \<or> cdiff2 < 0 then Inl ValueError
         else
           let data1 = pad_edge2 z (nat rdiff) (nat rdiff2) (nat cdiff) (nat cdiff2);
               f0 = fft2 (map (map complex_of_real) data1)
           in if xint * (int npts - 1) = 0 then Inl ZeroDivisionError
              else
                let f = fftshift f0;
                    fz = tabulate2d npts npts (\<lambda>i j.
                           f ! i ! j * complex_of_real (radial_freq npts xint i j))
                in Inr (fftshift fz))"

definition vertical :: "masked_array \<Rightarrow> nat option \<Rightarrow> int \<Rightarrow> error + real list list" where
  "vertical data npts0 xint =
     bind_e (vertical_weighted data npts0 xint) (\<lambda>fz.
       let (nr, nc) = np_shape (ma_data data);
           npts = vertical_npts nr nc npts0;
           (rdiff, rdiff2, cdiff, cdiff2) = vertical_pads nr nc npts;
           fzinv = ifft2 fz
       in Inr (map (map Re)
                 (py_slice2 fzinv rdiff (int nr + rdiff) cdiff (int nc + cdiff))))"

section \<open>Properties of the ray sweeps\<close>

lemma py_get_nat: "i < length xs \<Longrightarrow> py_get xs (int i) = Inr (xs ! i)"
  by (simp add: py_get_def)

lemma visible1_loop_pure:
  "c < length dat \<Longrightarrow> \<forall>i \<in> set is. i < length dat \<Longrightarrow>
   visible1_loop dat (int c) dh (map int is) st =
     Inr (running_max (map (\<lambda>i. (dat ! i - dat ! c - dh) / real_of_int (int i - int c)) is) st)"
proof (induction "is" arbitrary: st)
  case Nil
  then show ?case by simp
next
  case (Cons i rest)
  obtain num tm where st: "st = (num, tm)" by (cases st)
  from Cons show ?case
    by (simp add: st py_get_nat bind_e_def Let_def)
qed

lemma visible2_loop_pure:
  "c < length dat \<Longrightarrow> \<forall>i \<in> set is. i < length dat \<Longrightarrow>
   visible2_loop dat (int c) dh (map int is) st =
     Inr (running_max (map (\<lambda>i. (dat ! i - dat ! c - dh) / real_of_int (int c - int i)) is) st)"
proof (induction "is" arbitrary: st)
  case Nil
  then show ?case by simp
next
  case (Cons i rest)
  obtain num tm where st: "st = (num, tm)" by (cases st)
  from Cons show ?case
    by (simp add: st py_get_nat bind_e_def Let_def)
qed

lemma fold_max_snoc: "fold max (xs @ [t]) (x::real) = max t (fold max xs x)"
  by simp

lemma naive_visible_append:
  "p \<noteq> [] \<Longrightarrow> naive_visible (p @ t # ts) (length p) = (fold max (tl p) (hd p) \<le> t)"
  by (cases p) (simp_all add: naive_visible_def)

lemma running_max_count:
  "p \<noteq> [] \<Longrightarrow> tm = fold max (tl p) (hd p) \<Longrightarrow>
   fst (running_max ts (num, tm)) =
     num + length (filter (naive_visible (p @ ts)) [length p ..< length p + length ts])"
proof (induction ts arbitrary: p num tm)
  case Nil
  then show ?case by simp
next
  case (Cons t ts)
  have p': "p @ [t] \<noteq> []" by simp
  have tm': "max t tm = fold max (tl (p @ [t])) (hd (p @ [t]))"
    using Cons.prems by (cases p) simp_all
  have split: "[length p ..< length p + length (t # ts)] =
      length p # [length (p @ [t]) ..< length (p @ [t]) + length ts]"
    using upt_conv_Cons [of "length p" "length p + length (t # ts)"] by (simp del: upt_Suc)
  have vis: "naive_visible (p @ t # ts) (length p) = (tm \<le> t)"
    using Cons.prems by (simp add: naive_visible_append)
  have IH: "fst (running_max ts (k, max t tm)) =
     k + length (filter (naive_visible (p @ t # ts)) [length (p @ [t]) ..< length (p @ [t]) + length ts])" for k
    using Cons.IH [OF p' tm', of k] by simp
  show ?case
  proof (cases "tm \<le> t")
    case True
    then have "max t tm = t" by simp
    with True IH [of "num + 1"] show ?thesis
      unfolding split by (simp add: vis)
  next
    case False
    then have "max t tm = tm" by simp
    with False IH [of num] show ?thesis
      unfolding split by (simp add: vis)
  qed
qed

lemma naive_count_Cons:
  "naive_count (t # ts) = fst (running_max ts (1, t))"
proof -
  have "fst (running_max ts (1, t)) =
     1 + length (filter (naive_visible ([t] @ ts)) [length [t] ..< length [t] + length ts])"
    by (rule running_max_count) simp_all
  moreover have "naive_visible (t # ts) 0" by (simp add: naive_visible_def)
  moreover have "[0 ..< length (t # ts)] = 0 # [Suc 0 ..< Suc (length ts)]"
    using upt_conv_Cons [of 0 "length (t # ts)"] by (simp del: upt_Suc)
  ultimately show ?thesis
    by (simp add: naive_count_def del: upt_Suc)
qed


lemma running_max_snd: "snd (running_max ts (num, tm)) = fold max ts tm"
  by (induction ts arbitrary: num tm) (auto simp: max_def)

lemma running_max_Suc:
  "fst (running_max ts (Suc num, tm)) = Suc (fst (running_max ts (num, tm)))"
  by (induction ts arbitrary: num tm) auto

lemma upto_int_upt: "[int a .. int b - 1] = map int [a ..< b]"
  by (rule nth_equalityI) (auto simp: nth_upto)

lemma spec_angles_forward:
  assumes "n \<le> length dat" "c < n"
  shows "spec_angles (dat ! c) dh (take (n - Suc c) (drop (Suc c) dat)) =
         map (\<lambda>k. (dat ! (Suc c + k) - dat ! c - dh) / real (k + 1)) [0 ..< n - Suc c]"
proof -
  have len: "length (take (n - Suc c) (drop (Suc c) dat)) = n - Suc c"
    using assms by simp
  have nth: "take (n - Suc c) (drop (Suc c) dat) ! k = dat ! (Suc c + k)" if "k < n - Suc c" for k
    using assms that by simp
  show ?thesis
    unfolding spec_angles_def len by (rule map_cong [OF refl]) (simp only: nth atLeastLessThan_iff set_upt)
qed

lemma spec_angles_backward:
  assumes "c < length dat"
  shows "spec_angles (dat ! c) dh (rev (take c dat)) =
         map (\<lambda>k. (dat ! (c - Suc k) - dat ! c - dh) / real (k + 1)) [0 ..< c]"
proof -
  have len: "length (rev (take c dat)) = c"
    using assms by simp
  have nth: "rev (take c dat) ! k = dat ! (c - Suc k)" if "k < c" for k
    using assms that by (simp add: rev_nth)
  show ?thesis
    unfolding spec_angles_def len by (rule map_cong [OF refl]) (simp only: nth atLeastLessThan_iff set_upt)
qed

lemma visible1_sweep:
  assumes "n \<le> length dat" "c + 2 < n"
  shows "visible1 dat (int n) (int c + 1) dh =
         Inr (1 + naive_count (spec_angles (dat ! c) dh (take (n - Suc c) (drop (Suc c) dat))))"
proof -
  let ?th = "\<lambda>k. (dat ! (Suc c + k) - dat ! c - dh) / real (k + 1)"
  let ?raw = "\<lambda>i. (dat ! i - dat ! c - dh) / real_of_int (int i - int c)"
  have ne: "dat \<noteq> []" and guard: "int c + 1 < int n - 1"
    using assms by auto
  have idx: "[int c + 2 .. int n - 1] = map int [c + 2 ..< n]"
    by (rule nth_equalityI) (auto simp: nth_upto)
  have loop: "visible1_loop dat (int c) dh (map int [c + 2 ..< n]) st =
      Inr (running_max (map ?raw [c + 2 ..< n]) st)" for st
    using assms by (intro visible1_loop_pure) auto
  have re: "map ?raw [c + 2 ..< n] = map ?th [1 ..< n - Suc c]"
    using assms by (intro nth_equalityI) (auto simp: algebra_simps)
  have ang: "spec_angles (dat ! c) dh (take (n - Suc c) (drop (Suc c) dat)) =
      ?th 0 # map ?th [1 ..< n - Suc c]"
    using assms spec_angles_forward [of n dat c dh] upt_conv_Cons [of 0 "n - Suc c"]
    by (simp del: upt_Suc)
  have g1: "py_get dat (int c + 1) = Inr (dat ! (c + 1))"
    using assms py_get_nat [of "c + 1" dat] by (simp add: add.commute)
  have g0: "py_get dat (int c) = Inr (dat ! c)"
    using assms py_get_nat [of c dat] by simp
  have "visible1 dat (int n) (int c + 1) dh =
      bind_e (visible1_loop dat (int c) dh [int c + 2 .. int n - 1] (2, dat ! (c + 1) - dat ! c - dh))
        (\<lambda>st. Inr (fst st))"
    unfolding visible1_def using ne guard
    by (simp add: bind_e_def Let_def g1 g0 del: upt_Suc)
  also have "\<dots> = Inr (fst (running_max (map ?th [1 ..< n - Suc c]) (2, dat ! (c + 1) - dat ! c - dh)))"
    unfolding idx loop re by (simp add: bind_e_def del: upt_Suc)
  also have "fst (running_max (map ?th [1 ..< n - Suc c]) (2, dat ! (c + 1) - dat ! c - dh)) =
      Suc (fst (running_max (map ?th [1 ..< n - Suc c]) (1, ?th 0)))"
    using running_max_Suc [of "map ?th [1 ..< n - Suc c]" 1 "?th 0"] by (simp add: numeral_2_eq_2)
  finally show ?thesis
    by (simp add: ang naive_count_Cons del: upt_Suc)
qed

lemma visible2_sweep:
  assumes "c < length dat" "2 \<le> c"
  shows "visible2 dat (int c + 1) dh =
         Inr (naive_count (spec_angles (dat ! c) dh (rev (take c dat))))"
proof -
  let ?th = "\<lambda>k. (dat ! (c - Suc k) - dat ! c - dh) / real (k + 1)"
  let ?raw = "\<lambda>i. (dat ! i - dat ! c - dh) / real_of_int (int c - int i)"
  have ne: "dat \<noteq> []" and guard: "int c + 1 > 2"
    using assms by auto
  have "[0 .. int c - 2] = map int [0 ..< c - 1]"
    using assms by (intro nth_equalityI) (auto simp: nth_upto)
  then have idx: "rev [0 .. int c - 2] = map int (rev [0 ..< c - 1])"
    by (simp add: rev_map)
  have loop: "visible2_loop dat (int c) dh (map int (rev [0 ..< c - 1])) st =
      Inr (running_max (map ?raw (rev [0 ..< c - 1])) st)" for st
    using assms by (intro visible2_loop_pure) auto
  have re: "map ?raw (rev [0 ..< c - 1]) = map ?th [1 ..< c]"
  proof (rule nth_equalityI)
    show "length (map ?raw (rev [0 ..< c - 1])) = length (map ?th [1 ..< c])" by simp
  next
    fix i assume "i < length (map ?raw (rev [0 ..< c - 1]))"
    then have i: "i < c - 1" by simp
    then have a: "rev [0 ..< c - 1] ! i = c - Suc (Suc i)"
      by (simp add: rev_nth)
    have b: "real_of_int (int c - int (c - Suc (Suc i))) = real (Suc i + 1)"
      using i by (simp add: of_nat_diff)
    have "map ?raw (rev [0 ..< c - 1]) ! i = ?raw (c - Suc (Suc i))"
      using i a by (simp del: upt_Suc)
    also have "\<dots> = ?th (Suc i)"
      unfolding b by simp
    also have "\<dots> = map ?th [1 ..< c] ! i"
      using i by simp
    finally show "map ?raw (rev [0 ..< c - 1]) ! i = map ?th [1 ..< c] ! i" .
  qed
  have ang: "spec_angles (dat ! c) dh (rev (take c dat)) = ?th 0 # map ?th [1 ..< c]"
    using assms spec_angles_backward [of c dat dh] upt_conv_Cons [of 0 c]
    by (simp del: upt_Suc)
  have g1: "py_get dat (int c - 1) = Inr (dat ! (c - 1))"
    using assms py_get_nat [of "c - 1" dat] by (simp add: of_nat_diff)
  have g0: "py_get dat (int c) = Inr (dat ! c)"
    using assms py_get_nat [of c dat] by simp
  have "visible2 dat (int c + 1) dh =
      bind_e (visible2_loop dat (int c) dh (rev [0 .. int c - 2]) (1, dat ! (c - 1) - dat ! c - dh))
        (\<lambda>st. Inr (fst st))"
    unfolding visible2_def using ne guard
    by (simp add: bind_e_def Let_def g1 g0 del: upt_Suc)
  also have "\<dots> = Inr (fst (running_max (map ?th [1 ..< c]) (1, dat ! (c - 1) - dat ! c - dh)))"
    unfolding idx loop re by (simp add: bind_e_def del: upt_Suc)
  finally show ?thesis
    by (simp add: ang naive_count_Cons del: upt_Suc)
qed

section \<open>Arrays, slices and array construction\<close>

lemma sequence_e_Inr: "sequence_e (map Inr xs) = Inr xs"
  by (induction xs) (simp_all add: bind_e_def)

lemma sequence_e_map:
  "(\<And>x. x \<in> set xs \<Longrightarrow> f x = Inr (g x)) \<Longrightarrow> sequence_e (map f xs) = Inr (map g xs)"
  by (induction xs) (simp_all add: bind_e_def)

lemma fill2d_tabulate:
  assumes "\<And>i j. i < nr \<Longrightarrow> j < nc \<Longrightarrow> f i j = Inr (g i j)"
  shows "fill2d nr nc f = Inr (tabulate2d nr nc g)"
  unfolding fill2d_def tabulate2d_def
  by (intro sequence_e_map) (simp add: assms)

lemma tabulate2d_rect: "rect (tabulate2d nr nc f) nr nc"
  by (simp add: rect_def tabulate2d_def list_all_iff)

lemma tabulate2d_nth: "i < nr \<Longrightarrow> j < nc \<Longrightarrow> tabulate2d nr nc f ! i ! j = f i j"
  by (simp add: tabulate2d_def)

lemma rect_nth_length: "rect a nr nc \<Longrightarrow> i < nr \<Longrightarrow> length (a ! i) = nc"
  by (auto simp: rect_def list_all_length)

lemma np_shape_rect: "rect a nr nc \<Longrightarrow> 0 < nr \<Longrightarrow> np_shape a = (nr, nc)"
  by (cases a) (auto simp: rect_def np_shape_def)

lemma py_slice_nat:
  "py_slice xs (int a) (int b) = take (b - a) (drop a xs)"
  by (auto simp: py_slice_def py_bound_def Let_def min_def)

lemma py_slice_trim_length:
  "length (py_slice xs (int w) (int (length xs) - int w)) = length xs - 2 * w"
  by (auto simp: py_slice_def py_bound_def Let_def min_def max_def)

lemma py_slice_trim_nth:
  "i < length xs - 2 * w \<Longrightarrow> py_slice xs (int w) (int (length xs) - int w) ! i = xs ! (w + i)"
  by (auto simp: py_slice_def py_bound_def Let_def min_def max_def)

lemma py_slice_neg:
  "0 < w \<Longrightarrow> py_slice xs (int w) (- int w) = py_slice xs (int w) (int (length xs) - int w)"
  by (auto simp: py_slice_def py_bound_def Let_def min_def max_def)

lemma py_slice2_trim_rect:
  assumes "rect a nr nc"
  shows "rect (py_slice2 a (int w) (int nr - int w) (int w) (int nc - int w)) (nr - 2 * w) (nc - 2 * w)"
proof -
  have len: "length a = nr" using assms by (simp add: rect_def)
  have rows: "r \<in> set (py_slice a (int w) (int nr - int w)) \<Longrightarrow> length r = nc" for r
    using assms by (auto simp: rect_def list_all_iff py_slice_def Let_def dest!: in_set_takeD in_set_dropD)
  show ?thesis
    unfolding rect_def py_slice2_def
    using py_slice_trim_length [of a w] rows py_slice_trim_length [of _ w]
    by (auto simp: len list_all_iff)
qed

lemma py_slice2_trim_nth:
  assumes "rect a nr nc" "i < nr - 2 * w" "j < nc - 2 * w"
  shows "py_slice2 a (int w) (int nr - int w) (int w) (int nc - int w) ! i ! j = a ! (w + i) ! (w + j)"
proof -
  have len: "length a = nr" using assms by (simp add: rect_def)
  have row: "length (a ! (w + i)) = nc"
    using assms by (intro rect_nth_length [of a nr nc]) auto
  have i': "i < length (py_slice a (int w) (int nr - int w))"
    using py_slice_trim_length [of a w] assms by (simp add: len)
  have "py_slice a (int w) (int nr - int w) ! i = a ! (w + i)"
    using py_slice_trim_nth [of i a w] assms by (simp add: len)
  then show ?thesis
    unfolding py_slice2_def using i' py_slice_trim_nth [of j "a ! (w + i)" w] assms
    by (simp add: row)
qed

lemma py_slice2_neg:
  assumes "rect a nr nc" "0 < w"
  shows "py_slice2 a (int w) (- int w) (int w) (- int w) =
         py_slice2 a (int w) (int nr - int w) (int w) (int nc - int w)"
proof -
  have len: "length a = nr" using assms by (simp add: rect_def)
  have rows: "r \<in> set (py_slice a (int w) (int nr - int w)) \<Longrightarrow> length r = nc" for r
    using assms by (auto simp: rect_def list_all_iff py_slice_def Let_def dest!: in_set_takeD in_set_dropD)
  have a: "py_slice a (int w) (- int w) = py_slice a (int w) (int nr - int w)"
    using py_slice_neg [of w a] assms by (simp add: len)
  show ?thesis
    unfolding py_slice2_def a
    by (rule map_cong [OF refl]) (use rows py_slice_neg [of w] assms in auto)
qed

section \<open>The filter returns\<close>

lemma visible1_Inr:
  assumes "0 \<le> wsize" "nat wsize \<le> length dat"
  shows "\<exists>n. visible1 dat wsize (int c + 1) dh = Inr n"
proof (cases "int c + 1 < wsize - 1 \<and> dat \<noteq> []")
  case True
  then have "c + 2 < nat wsize" by auto
  from visible1_sweep [OF assms(2) this, of dh] assms(1) show ?thesis by simp
next
  case False
  then show ?thesis by (auto simp: visible1_def)
qed

lemma visible2_Inr:
  assumes "2 \<le> c \<Longrightarrow> c < length dat"
  shows "\<exists>n. visible2 dat (int c + 1) dh = Inr n"
proof (cases "int c + 1 > 2 \<and> dat \<noteq> []")
  case True
  then have c: "2 \<le> c" by auto
  from visible2_sweep [OF assms [OF c] c, of dh] show ?thesis by simp
next
  case False
  then show ?thesis by (auto simp: visible2_def)
qed

lemma as_float_Inr: "r = Inr n \<Longrightarrow> as_float r = Inr (real n)"
  by (simp add: as_float_def bind_e_def)

lemma fill2d_total:
  assumes "\<And>i j. i < nr \<Longrightarrow> j < nc \<Longrightarrow> \<exists>v. f i j = Inr v"
  shows "fill2d nr nc f = Inr (tabulate2d nr nc (\<lambda>i j. projr (f i j)))"
proof (rule fill2d_tabulate)
  fix i j assume "i < nr" "j < nc"
  then obtain v where "f i j = Inr v" using assms by blast
  then show "f i j = Inr (projr (f i j))" by simp
qed

lemma fill_masked_rect:
  assumes "rect d nr nc" "rect m nr nc"
  shows "rect (fill_masked d m v) nr nc"
  using assms
  by (auto simp: rect_def fill_masked_def list_all_length)

lemma fill_masked_nth:
  assumes "rect d nr nc" "rect m nr nc" "i < nr" "j < nc"
  shows "fill_masked d m v ! i ! j = (if m ! i ! j then v else d ! i ! j)"
  using assms
  by (auto simp: rect_def fill_masked_def list_all_length)

lemma py_slice_window:
  assumes "w \<le> i" "i + w < length xs"
  shows "py_slice xs (int i - int w) (int i + int w + 1) = take (2 * w + 1) (drop (i - w) xs)"
proof -
  have a: "int i - int w = int (i - w)" using assms by (simp add: of_nat_diff)
  have b: "int i + int w + 1 = int (i + w + 1)" by simp
  have c: "i + w + 1 - (i - w) = 2 * w + 1" using assms by simp
  show ?thesis
    unfolding a b py_slice_nat c ..
qed

lemma window_col_length:
  assumes "rect d nr nc" "in_range i (int w2) (int nr - int w2)"
  shows "length (window_col d i j w2) = 2 * w2 + 1"
proof -
  have "w2 \<le> i" "i + w2 < length d"
    using assms by (auto simp: in_range_def rect_def)
  then show ?thesis
    by (simp add: window_col_def py_slice_window)
qed

lemma window_row_length:
  assumes "rect d nr nc" "i < nr" "in_range j (int w2) (int nc - int w2)"
  shows "length (window_row d i j w2) = 2 * w2 + 1"
proof -
  have "length (d ! i) = nc" using assms by (simp add: rect_nth_length)
  then have "w2 \<le> j" "j + w2 < length (d ! i)"
    using assms by (auto simp: in_range_def)
  then show ?thesis
    by (simp add: window_row_def py_slice_window)
qed

lemma half_window:
  assumes "0 \<le> wsize" "w2 = nat (wsize div 2)"
  shows "nat wsize \<le> 2 * w2 + 1" "2 \<le> w2 \<Longrightarrow> w2 < nat wsize"
  using assms by auto


lemma window_diag_length:
  "length (window_diag1 d i j w2 n) = n" "length (window_diag2 d i j w2 n) = n"
  by (simp_all add: window_diag1_def window_diag2_def)

lemma vis_cells_Inr:
  assumes "rect d nr nc" "0 \<le> wsize" "w2 = nat (wsize div 2)"
  shows "in_range i (int w2) (int nr - int w2) \<Longrightarrow>
           \<exists>n. visible1 (window_col d i j w2) wsize (int w2 + 1) dh = Inr n"
    and "in_range i (int w2) (int nr - int w2) \<Longrightarrow>
           \<exists>n. visible2 (window_col d i j w2) (int w2 + 1) dh = Inr n"
    and "i < nr \<Longrightarrow> in_range j (int w2) (int nc - int w2) \<Longrightarrow>
           \<exists>n. visible1 (window_row d i j w2) wsize (int w2 + 1) dh = Inr n"
    and "i < nr \<Longrightarrow> in_range j (int w2) (int nc - int w2) \<Longrightarrow>
           \<exists>n. visible2 (window_row d i j w2) (int w2 + 1) dh = Inr n"
    and "\<exists>n. visible1 (window_diag1 d i j w2 (nat wsize)) wsize (int w2 + 1) dh = Inr n"
    and "\<exists>n. visible2 (window_diag1 d i j w2 (nat wsize)) (int w2 + 1) dh = Inr n"
    and "\<exists>n. visible1 (window_diag2 d i j w2 (nat wsize)) wsize (int w2 + 1) dh = Inr n"
    and "\<exists>n. visible2 (window_diag2 d i j w2 (nat wsize)) (int w2 + 1) dh = Inr n"
proof -
  note hw = half_window [OF assms(2,3)]
  show "in_range i (int w2) (int nr - int w2) \<Longrightarrow>
           \<exists>n. visible1 (window_col d i j w2) wsize (int w2 + 1) dh = Inr n"
    using hw by (intro visible1_Inr assms) (simp add: window_col_length [OF assms(1)])
  show "in_range i (int w2) (int nr - int w2) \<Longrightarrow>
           \<exists>n. visible2 (window_col d i j w2) (int w2 + 1) dh = Inr n"
    by (intro visible2_Inr) (simp add: window_col_length [OF assms(1)])
  show "i < nr \<Longrightarrow> in_range j (int w2) (int nc - int w2) \<Longrightarrow>
           \<exists>n. visible1 (window_row d i j w2) wsize (int w2 + 1) dh = Inr n"
    using hw by (intro visible1_Inr assms) (simp add: window_row_length [OF assms(1)])
  show "i < nr \<Longrightarrow> in_range j (int w2) (int nc - int w2) \<Longrightarrow>
           \<exists>n. visible2 (window_row d i j w2) (int w2 + 1) dh = Inr n"
    by (intro visible2_Inr) (simp add: window_row_length [OF assms(1)])
  show "\<exists>n. visible1 (window_diag1 d i j w2 (nat wsize)) wsize (int w2 + 1) dh = Inr n"
    by (intro visible1_Inr assms) (simp add: window_diag_length)
  show "\<exists>n. visible2 (window_diag1 d i j w2 (nat wsize)) (int w2 + 1) dh = Inr n"
    using hw by (intro visible2_Inr) (simp add: window_diag_length)
  show "\<exists>n. visible1 (window_diag2 d i j w2 (nat wsize)) wsize (int w2 + 1) dh = Inr n"
    by (intro visible1_Inr assms) (simp add: window_diag_length)
  show "\<exists>n. visible2 (window_diag2 d i j w2 (nat wsize)) (int w2 + 1) dh = Inr n"
    using hw by (intro visible2_Inr) (simp add: window_diag_length)
qed

lemma as_float_ex: "\<exists>n. r = Inr n \<Longrightarrow> \<exists>v. as_float r = Inr v"
  by (auto simp: as_float_def bind_e_def)

lemma vis_arrays_Inr:
  assumes "rect d nr nc" "0 \<le> wsize" "w2 = nat (wsize div 2)"
  shows "\<exists>a. vis_vn d nr nc wsize w2 dh = Inr a \<and> rect a nr nc"
    and "\<exists>a. vis_vs d nr nc wsize w2 dh = Inr a \<and> rect a nr nc"
    and "\<exists>a. vis_ve d nr nc wsize w2 dh = Inr a \<and> rect a nr nc"
    and "\<exists>a. vis_vw d nr nc wsize w2 dh = Inr a \<and> rect a nr nc"
    and "\<exists>a. vis_vd1 d nr nc wsize w2 dh = Inr a \<and> rect a nr nc"
    and "\<exists>a. vis_vd2 d nr nc wsize w2 dh = Inr a \<and> rect a nr nc"
    and "\<exists>a. vis_vd3 d nr nc wsize w2 dh = Inr a \<and> rect a nr nc"
    and "\<exists>a. vis_vd4 d nr nc wsize w2 dh = Inr a \<and> rect a nr nc"
  unfolding vis_vn_def vis_vs_def vis_ve_def vis_vw_def vis_vd1_def vis_vd2_def vis_vd3_def vis_vd4_def
  by (subst fill2d_total;
      simp add: tabulate2d_rect as_float_ex vis_cells_Inr [OF assms])+

lemma visibility2d_unfold:
  assumes "rect (ma_data data) nr nc" "rect (ma_mask data) nr nc"
    and shape: "np_shape (ma_data data) = (nr, nc)"
    and w2: "w2 = nat (\<bar>wsize\<bar> div 2)"
    and d: "d = fill_masked (ma_data data) (ma_mask data) (ma_mean data)"
  obtains vn vs ve vw vd1 vd2 vd3 vd4 where
    "vis_vn d nr nc \<bar>wsize\<bar> w2 dh = Inr vn"
    "vis_vs d nr nc \<bar>wsize\<bar> w2 dh = Inr vs"
    "vis_ve d nr nc \<bar>wsize\<bar> w2 dh = Inr ve"
    "vis_vw d nr nc \<bar>wsize\<bar> w2 dh = Inr vw"
    "vis_vd1 d nr nc \<bar>wsize\<bar> w2 dh = Inr vd1"
    "vis_vd2 d nr nc \<bar>wsize\<bar> w2 dh = Inr vd2"
    "vis_vd3 d nr nc \<bar>wsize\<bar> w2 dh = Inr vd3"
    "vis_vd4 d nr nc \<bar>wsize\<bar> w2 dh = Inr vd4"
    "visibility2d data wsize dh = Inr
       \<lparr> vtot = \<lparr> ma_data = py_slice2 (vis_total [vn, vs, ve, vw, vd1, vd2, vd3, vd4] nr nc)
                               (int w2) (int nr - int w2) (int w2) (int nc - int w2),
                  ma_mask = py_slice2 (ma_mask data) (int w2) (- int w2) (int w2) (- int w2) \<rparr>,
         vstd = \<lparr> ma_data = py_slice2 (vis_std [vn, vs, ve, vw, vd1, vd2, vd3, vd4] nr nc)
                               (int w2) (int nr - int w2) (int w2) (int nc - int w2),
                  ma_mask = py_slice2 (ma_mask data) (int w2) (- int w2) (int w2) (- int w2) \<rparr>,
         vsum = \<lparr> ma_data = py_slice2 (vis_resultant vn vs ve vw vd1 vd2 vd3 vd4 nr nc)
                               (int w2) (int nr - int w2) (int w2) (int nc - int w2),
                  ma_mask = py_slice2 (ma_mask data) (int w2) (- int w2) (int w2) (- int w2) \<rparr>,
         caller_data = d,
         caller_mask = ma_mask data \<rparr>"
proof -
  have rd: "rect d nr nc"
    unfolding d by (rule fill_masked_rect [OF assms(1,2)])
  have nonneg: "0 \<le> \<bar>wsize\<bar>" by simp
  note ex = vis_arrays_Inr [OF rd nonneg w2, of dh]
  from ex(1) obtain vn where vn: "vis_vn d nr nc \<bar>wsize\<bar> w2 dh = Inr vn" by blast
  from ex(2) obtain vs where vs: "vis_vs d nr nc \<bar>wsize\<bar> w2 dh = Inr vs" by blast
  from ex(3) obtain ve where ve: "vis_ve d nr nc \<bar>wsize\<bar> w2 dh = Inr ve" by blast
  from ex(4) obtain vw where vw: "vis_vw d nr nc \<bar>wsize\<bar> w2 dh = Inr vw" by blast
  from ex(5) obtain vd1 where vd1: "vis_vd1 d nr nc \<bar>wsize\<bar> w2 dh = Inr vd1" by blast
  from ex(6) obtain vd2 where vd2: "vis_vd2 d nr nc \<bar>wsize\<bar> w2 dh = Inr vd2" by blast
  from ex(7) obtain vd3 where vd3: "vis_vd3 d nr nc \<bar>wsize\<bar> w2 dh = Inr vd3" by blast
  from ex(8) obtain vd4 where vd4: "vis_vd4 d nr nc \<bar>wsize\<bar> w2 dh = Inr vd4" by blast
  have "visibility2d data wsize dh = Inr
       \<lparr> vtot = \<lparr> ma_data = py_slice2 (vis_total [vn, vs, ve, vw, vd1, vd2, vd3, vd4] nr nc)
                               (int w2) (int nr - int w2) (int w2) (int nc - int w2),
                  ma_mask = py_slice2 (ma_mask data) (int w2) (- int w2) (int w2) (- int w2) \<rparr>,
         vstd = \<lparr> ma_data = py_slice2 (vis_std [vn, vs, ve, vw, vd1, vd2, vd3, vd4] nr nc)
                               (int w2) (int nr - int w2) (int w2) (int nc - int w2),
                  ma_mask = py_slice2 (ma_mask data) (int w2) (- int w2) (int w2) (- int w2) \<rparr>,
         vsum = \<lparr> ma_data = py_slice2 (vis_resultant vn vs ve vw vd1 vd2 vd3 vd4 nr nc)
                               (int w2) (int nr - int w2) (int w2) (int nc - int w2),
                  ma_mask = py_slice2 (ma_mask data) (int w2) (- int w2) (int w2) (- int w2) \<rparr>,
         caller_data = d,
         caller_mask = ma_mask data \<rparr>"
    unfolding visibility2d_def shape
    by (simp add: Let_def bind_e_def w2 [symmetric] d [symmetric] vn vs ve vw vd1 vd2 vd3 vd4)
  with vn vs ve vw vd1 vd2 vd3 vd4 show thesis
    by (rule that)
qed

lemma vis_aggregate_rect:
  "rect (vis_total vs nr nc) nr nc" "rect (vis_std vs nr nc) nr nc"
  "rect (vis_resultant vn vs' ve vw vd1 vd2 vd3 vd4 nr nc) nr nc"
  by (simp_all add: vis_total_def vis_std_def vis_resultant_def Let_def tabulate2d_rect)

section \<open>The window of three cells\<close>

lemma np_shape_empty: "rect a 0 nc \<Longrightarrow> np_shape a = (0, 0) \<and> rect a 0 0"
  by (simp add: rect_def np_shape_def)

lemma visible_window3:
  "visible1 dat 3 2 dh = Inr 1" "visible2 dat 2 dh = Inr 0"
  by (simp_all add: visible1_def visible2_def)

lemma vis_arrays_window3:
  "vis_vn d nr nc 3 1 dh = Inr (tabulate2d nr nc (\<lambda>i j.
      if in_range j 0 (int nc) \<and> in_range i (int 1) (int nr - int 1) then 1 else 0))"
  "vis_vs d nr nc 3 1 dh = Inr (tabulate2d nr nc (\<lambda>i j. 0))"
  "vis_ve d nr nc 3 1 dh = Inr (tabulate2d nr nc (\<lambda>i j.
      if in_range j (int 1) (int nc - int 1) \<and> in_range i 0 (int nr) then 1 else 0))"
  "vis_vw d nr nc 3 1 dh = Inr (tabulate2d nr nc (\<lambda>i j. 0))"
  "vis_vd1 d nr nc 3 1 dh = Inr (tabulate2d nr nc (\<lambda>i j.
      if in_range j (int 1) (int nc - int 1) \<and> in_range i (int 1) (int nr - int 1) then 1 else 0))"
  "vis_vd2 d nr nc 3 1 dh = Inr (tabulate2d nr nc (\<lambda>i j. 0))"
  "vis_vd3 d nr nc 3 1 dh = Inr (tabulate2d nr nc (\<lambda>i j.
      if in_range j (int 1) (int nc - int 1) \<and> in_range i (int 1) (int nr - int 1) then 1 else 0))"
  "vis_vd4 d nr nc 3 1 dh = Inr (tabulate2d nr nc (\<lambda>i j. 0))"
  unfolding vis_vn_def vis_vs_def vis_ve_def vis_vw_def vis_vd1_def vis_vd2_def vis_vd3_def vis_vd4_def
  by (rule fill2d_tabulate; simp add: visible_window3 as_float_def bind_e_def)+

lemma np_std_alternating: "np_std_ddof1 [a + 1, a, a + 1, a, a + 1, a, a + 1, a] = sqrt (2 / 7)"
proof -
  have "(a + 1 + a + (a + 1) + a + (a + 1) + a + (a + 1) + a) / 8 = a + 1 / 2"
    by (simp add: field_simps)
  then show ?thesis
    by (simp add: np_std_ddof1_def Let_def power2_eq_square field_simps)
qed

lemma rect_replicate:
  assumes "rect a n m" "\<And>i j. i < n \<Longrightarrow> j < m \<Longrightarrow> a ! i ! j = v"
  shows "a = replicate n (replicate m v)"
proof (rule nth_equalityI)
  show "length a = length (replicate n (replicate m v))"
    using assms(1) by (simp add: rect_def)
next
  fix i assume "i < length a"
  then have i: "i < n" using assms(1) by (simp add: rect_def)
  then have "length (a ! i) = m" using assms(1) by (simp add: rect_nth_length)
  then have "a ! i = replicate m v"
    using assms(2) [OF i] by (intro nth_equalityI) auto
  with i show "a ! i = replicate n (replicate m v) ! i" by simp
qed

lemma rect_shape:
  assumes "rect a nr nc"
  obtains nc' where "np_shape a = (nr, nc')" "rect a nr nc'" "0 < nr \<Longrightarrow> nc' = nc"
proof (cases "nr = 0")
  case True
  with assms np_shape_empty [of a nc] show ?thesis
    by (intro that [of 0]) auto
next
  case False
  with assms np_shape_rect [of a nr nc] show ?thesis
    by (intro that [of nc]) auto
qed

lemma visibility2d_window3:
  assumes "rect (ma_data data) R C" "rect (ma_mask data) R C"
  shows "\<exists>res. visibility2d data 3 dh = Inr res \<and>
           ma_data (vtot res) = replicate (R - 2) (replicate (C - 2) 4) \<and>
           ma_data (vstd res) = replicate (R - 2) (replicate (C - 2) (sqrt (2 / 7)))"
proof -
  obtain C' where sh: "np_shape (ma_data data) = (R, C')" "rect (ma_data data) R C'"
      and C': "0 < R \<Longrightarrow> C' = C"
    using rect_shape [OF assms(1)] by blast
  have m: "rect (ma_mask data) R C'"
    using assms(2) C' by (cases "R = 0") (auto simp: rect_def)
  have w2: "(1 :: nat) = nat (\<bar>3 :: int\<bar> div 2)" by simp
  obtain vn vs ve vw vd1 vd2 vd3 vd4 where
    arr: "vis_vn (fill_masked (ma_data data) (ma_mask data) (ma_mean data)) R C' \<bar>3\<bar> 1 dh = Inr vn"
      "vis_vs (fill_masked (ma_data data) (ma_mask data) (ma_mean data)) R C' \<bar>3\<bar> 1 dh = Inr vs"
      "vis_ve (fill_masked (ma_data data) (ma_mask data) (ma_mean data)) R C' \<bar>3\<bar> 1 dh = Inr ve"
      "vis_vw (fill_masked (ma_data data) (ma_mask data) (ma_mean data)) R C' \<bar>3\<bar> 1 dh = Inr vw"
      "vis_vd1 (fill_masked (ma_data data) (ma_mask data) (ma_mean data)) R C' \<bar>3\<bar> 1 dh = Inr vd1"
      "vis_vd2 (fill_masked (ma_data data) (ma_mask data) (ma_mean data)) R C' \<bar>3\<bar> 1 dh = Inr vd2"
      "vis_vd3 (fill_masked (ma_data data) (ma_mask data) (ma_mean data)) R C' \<bar>3\<bar> 1 dh = Inr vd3"
      "vis_vd4 (fill_masked (ma_data data) (ma_mask data) (ma_mean data)) R C' \<bar>3\<bar> 1 dh = Inr vd4"
    and res: "visibility2d data 3 dh = Inr
       \<lparr> vtot = \<lparr> ma_data = py_slice2 (vis_total [vn, vs, ve, vw, vd1, vd2, vd3, vd4] R C')
                               (int 1) (int R - int 1) (int 1) (int C' - int 1),
                  ma_mask = py_slice2 (ma_mask data) (int 1) (- int 1) (int 1) (- int 1) \<rparr>,
         vstd = \<lparr> ma_data = py_slice2 (vis_std [vn, vs, ve, vw, vd1, vd2, vd3, vd4] R C')
                               (int 1) (int R - int 1) (int 1) (int C' - int 1),
                  ma_mask = py_slice2 (ma_mask data) (int 1) (- int 1) (int 1) (- int 1) \<rparr>,
         vsum = \<lparr> ma_data = py_slice2 (vis_resultant vn vs ve vw vd1 vd2 vd3 vd4 R C')
                               (int 1) (int R - int 1) (int 1) (int C' - int 1),
                  ma_mask = py_slice2 (ma_mask data) (int 1) (- int 1) (int 1) (- int 1) \<rparr>,
         caller_data = fill_masked (ma_data data) (ma_mask data) (ma_mean data),
         caller_mask = ma_mask data \<rparr>"
    by (rule visibility2d_unfold [OF sh(2) m sh(1) w2 refl, of dh])
  have v: "vn = tabulate2d R C' (\<lambda>i j.
        if in_range j 0 (int C') \<and> in_range i (int 1) (int R - int 1) then 1 else 0)"
      "vs = tabulate2d R C' (\<lambda>i j. 0)"
      "ve = tabulate2d R C' (\<lambda>i j.
        if in_range j (int 1) (int C' - int 1) \<and> in_range i 0 (int R) then 1 else 0)"
      "vw = tabulate2d R C' (\<lambda>i j. 0)"
      "vd1 = tabulate2d R C' (\<lambda>i j.
        if in_range j (int 1) (int C' - int 1) \<and> in_range i (int 1) (int R - int 1) then 1 else 0)"
      "vd2 = tabulate2d R C' (\<lambda>i j. 0)"
      "vd3 = tabulate2d R C' (\<lambda>i j.
        if in_range j (int 1) (int C' - int 1) \<and> in_range i (int 1) (int R - int 1) then 1 else 0)"
      "vd4 = tabulate2d R C' (\<lambda>i j. 0)"
    using arr vis_arrays_window3 [of "fill_masked (ma_data data) (ma_mask data) (ma_mean data)" R C' dh]
    by simp_all
  have cells: "vn ! Suc i ! Suc j = 1" "vs ! Suc i ! Suc j = 0"
      "ve ! Suc i ! Suc j = 1" "vw ! Suc i ! Suc j = 0"
      "vd1 ! Suc i ! Suc j = 1" "vd2 ! Suc i ! Suc j = 0"
      "vd3 ! Suc i ! Suc j = 1" "vd4 ! Suc i ! Suc j = 0"
    if "i < R - 2" "j < C' - 2" for i j
    using that unfolding v by (auto simp: tabulate2d_nth in_range_def)
  have tot: "py_slice2 (vis_total [vn, vs, ve, vw, vd1, vd2, vd3, vd4] R C')
        (int 1) (int R - int 1) (int 1) (int C' - int 1) ! i ! j = 4"
    if ij: "i < R - 2 * 1" "j < C' - 2 * 1" for i j
  proof -
    have "vis_total [vn, vs, ve, vw, vd1, vd2, vd3, vd4] R C' ! (1 + i) ! (1 + j) = 4"
      using ij cells [of i j] by (simp add: vis_total_def tabulate2d_nth)
    then show ?thesis
      by (simp only: py_slice2_trim_nth [OF vis_aggregate_rect(1) ij])
  qed
  have std: "py_slice2 (vis_std [vn, vs, ve, vw, vd1, vd2, vd3, vd4] R C')
        (int 1) (int R - int 1) (int 1) (int C' - int 1) ! i ! j = sqrt (2 / 7)"
    if ij: "i < R - 2 * 1" "j < C' - 2 * 1" for i j
  proof -
    have L: "map (\<lambda>v. v ! Suc i ! Suc j) [vn, vs, ve, vw, vd1, vd2, vd3, vd4] =
        [0 + 1, 0, 0 + 1, 0, 0 + 1, 0, 0 + 1, 0]"
      using ij cells [of i j] by simp
    have "vis_std [vn, vs, ve, vw, vd1, vd2, vd3, vd4] R C' ! (1 + i) ! (1 + j) =
        np_std_ddof1 (map (\<lambda>v. v ! Suc i ! Suc j) [vn, vs, ve, vw, vd1, vd2, vd3, vd4])"
      using ij by (simp add: vis_std_def tabulate2d_nth del: list.map)
    then have "vis_std [vn, vs, ve, vw, vd1, vd2, vd3, vd4] R C' ! (1 + i) ! (1 + j) =
        np_std_ddof1 [0 + 1, 0, 0 + 1, 0, 0 + 1, 0, 0 + 1, 0]"
      unfolding L .
    then show ?thesis
      by (simp only: py_slice2_trim_nth [OF vis_aggregate_rect(2) ij] np_std_alternating)
  qed
  have "py_slice2 (vis_total [vn, vs, ve, vw, vd1, vd2, vd3, vd4] R C')
        (int 1) (int R - int 1) (int 1) (int C' - int 1) = replicate (R - 2 * 1) (replicate (C' - 2 * 1) 4)"
    by (rule rect_replicate [OF py_slice2_trim_rect [OF vis_aggregate_rect(1)] tot])
  moreover have "py_slice2 (vis_std [vn, vs, ve, vw, vd1, vd2, vd3, vd4] R C')
        (int 1) (int R - int 1) (int 1) (int C' - int 1) =
        replicate (R - 2 * 1) (replicate (C' - 2 * 1) (sqrt (2 / 7)))"
    by (rule rect_replicate [OF py_slice2_trim_rect [OF vis_aggregate_rect(2)] std])
  ultimately show ?thesis
    unfolding res using C' by (cases "R = 0") simp_all
qed

section \<open>Constant grids\<close>

lemma running_max_ties: "running_max (replicate k t) (n, t) = (n + k, t)"
  by (induction k arbitrary: n) simp_all

lemma naive_count_flat: "naive_count (replicate k t) = k"
proof (cases k)
  case 0
  then show ?thesis by (simp add: naive_count_def)
next
  case (Suc m)
  then show ?thesis
    by (simp add: naive_count_Cons running_max_ties)
qed

lemma spec_angles_flat: "spec_angles c 0 (replicate k c) = replicate k 0"
  by (rule nth_equalityI) (simp_all add: spec_angles_def)

lemma visible_flat:
  assumes "n = 2 * w + 1"
  shows "visible1 (replicate n c) (int n) (int w + 1) 0 = Inr (if 2 \<le> w then w + 1 else 1)"
    and "visible2 (replicate n c) (int w + 1) 0 = Inr (if 2 \<le> w then w else 0)"
proof -
  have n: "w < n" "n - Suc w = w" using assms by auto
  have ray1: "take (n - Suc w) (drop (Suc w) (replicate n c)) = replicate w c"
    using n by simp
  have ray2: "rev (take w (replicate n c)) = replicate w c"
    using n by (simp add: min_def)
  have centre: "replicate n c ! w = c"
    using n by simp
  show "visible1 (replicate n c) (int n) (int w + 1) 0 = Inr (if 2 \<le> w then w + 1 else 1)"
  proof (cases "2 \<le> w")
    case True
    then have "n \<le> length (replicate n c)" "w + 2 < n" using assms by auto
    from visible1_sweep [OF this, of 0] True show ?thesis
      unfolding ray1 centre by (simp add: spec_angles_flat naive_count_flat)
  next
    case False
    then show ?thesis using assms by (auto simp: visible1_def)
  qed
  show "visible2 (replicate n c) (int w + 1) 0 = Inr (if 2 \<le> w then w else 0)"
  proof (cases "2 \<le> w")
    case True
    then have "w < length (replicate n c)" "2 \<le> w" using n by auto
    from visible2_sweep [OF this, of 0] True show ?thesis
      unfolding ray2 centre by (simp add: spec_angles_flat naive_count_flat)
  next
    case False
    then show ?thesis by (auto simp: visible2_def)
  qed
qed

lemma rect_flat: "rect (replicate R (replicate C c)) R C"
  by (simp add: rect_def list_all_iff)

lemma fill_masked_no_mask:
  "fill_masked (replicate R (replicate C c)) (replicate R (replicate C False)) v =
   replicate R (replicate C c)"
  by (rule rect_replicate [OF fill_masked_rect [OF rect_flat rect_flat]])
     (simp add: fill_masked_nth [OF rect_flat rect_flat])

lemma windows_flat:
  assumes "d = replicate R (replicate C c)"
  shows "in_range i (int w) (int R - int w) \<Longrightarrow> j < C \<Longrightarrow>
           window_col d i j w = replicate (2 * w + 1) c"
    and "i < R \<Longrightarrow> in_range j (int w) (int C - int w) \<Longrightarrow>
           window_row d i j w = replicate (2 * w + 1) c"
    and "in_range i (int w) (int R - int w) \<Longrightarrow> in_range j (int w) (int C - int w) \<Longrightarrow>
           n \<le> 2 * w + 1 \<Longrightarrow> window_diag1 d i j w n = replicate n c"
    and "in_range i (int w) (int R - int w) \<Longrightarrow> in_range j (int w) (int C - int w) \<Longrightarrow>
           n \<le> 2 * w + 1 \<Longrightarrow> window_diag2 d i j w n = replicate n c"
proof -
  show "window_col d i j w = replicate (2 * w + 1) c"
    if "in_range i (int w) (int R - int w)" "j < C"
  proof -
    have "w \<le> i" "i + w < length d" using that assms by (auto simp: in_range_def)
    then have "window_col d i j w = map (\<lambda>row. row ! j) (take (2 * w + 1) (drop (i - w) d))"
      by (simp only: window_col_def py_slice_window)
    also have "take (2 * w + 1) (drop (i - w) d) = replicate (2 * w + 1) (replicate C c)"
      using \<open>w \<le> i\<close> \<open>i + w < length d\<close> unfolding assms
      by (simp add: min_def del: replicate_Suc)
    finally show ?thesis
      using that by (simp del: replicate_Suc)
  qed
  show "window_row d i j w = replicate (2 * w + 1) c"
    if "i < R" "in_range j (int w) (int C - int w)"
  proof -
    have row: "d ! i = replicate C c" using that assms by simp
    have "w \<le> j" "j + w < length (d ! i)" using that row by (auto simp: in_range_def)
    then have "window_row d i j w = take (2 * w + 1) (drop (j - w) (d ! i))"
      by (simp only: window_row_def py_slice_window)
    also have "\<dots> = replicate (2 * w + 1) c"
      using \<open>w \<le> j\<close> \<open>j + w < length (d ! i)\<close> unfolding row
      by (simp add: min_def del: replicate_Suc)
    finally show ?thesis .
  qed
  show "window_diag1 d i j w n = replicate n c"
    if "in_range i (int w) (int R - int w)" "in_range j (int w) (int C - int w)" "n \<le> 2 * w + 1"
    using that assms
    by (intro nth_equalityI) (auto simp: window_diag1_def in_range_def)
  show "window_diag2 d i j w n = replicate n c"
    if "in_range i (int w) (int R - int w)" "in_range j (int w) (int C - int w)" "n \<le> 2 * w + 1"
    using that assms
    by (intro nth_equalityI) (auto simp: window_diag2_def in_range_def)
qed

lemma flat_cells:
  assumes d: "d = replicate R (replicate C c)" and n: "n = 2 * w + 1"
  shows "in_range i (int w) (int R - int w) \<Longrightarrow> j < C \<Longrightarrow>
           as_float (visible1 (window_col d i j w) (int n) (int w + 1) 0) =
             Inr (real (if 2 \<le> w then w + 1 else 1))"
    and "in_range i (int w) (int R - int w) \<Longrightarrow> j < C \<Longrightarrow>
           as_float (visible2 (window_col d i j w) (int w + 1) 0) =
             Inr (real (if 2 \<le> w then w else 0))"
    and "i < R \<Longrightarrow> in_range j (int w) (int C - int w) \<Longrightarrow>
           as_float (visible1 (window_row d i j w) (int n) (int w + 1) 0) =
             Inr (real (if 2 \<le> w then w + 1 else 1))"
    and "i < R \<Longrightarrow> in_range j (int w) (int C - int w) \<Longrightarrow>
           as_float (visible2 (window_row d i j w) (int w + 1) 0) =
             Inr (real (if 2 \<le> w then w else 0))"
    and "in_range i (int w) (int R - int w) \<Longrightarrow> in_range j (int w) (int C - int w) \<Longrightarrow>
           as_float (visible1 (window_diag1 d i j w n) (int n) (int w + 1) 0) =
             Inr (real (if 2 \<le> w then w + 1 else 1))"
    and "in_range i (int w) (int R - int w) \<Longrightarrow> in_range j (int w) (int C - int w) \<Longrightarrow>
           as_float (visible2 (window_diag1 d i j w n) (int w + 1) 0) =
             Inr (real (if 2 \<le> w then w else 0))"
    and "in_range i (int w) (int R - int w) \<Longrightarrow> in_range j (int w) (int C - int w) \<Longrightarrow>
           as_float (visible1 (window_diag2 d i j w n) (int n) (int w + 1) 0) =
             Inr (real (if 2 \<le> w then w + 1 else 1))"
    and "in_range i (int w) (int R - int w) \<Longrightarrow> in_range j (int w) (int C - int w) \<Longrightarrow>
           as_float (visible2 (window_diag2 d i j w n) (int w + 1) 0) =
             Inr (real (if 2 \<le> w then w else 0))"
proof -
  note vf = visible_flat [OF n, of c]
  have le: "n \<le> 2 * w + 1" using n by simp
  show "in_range i (int w) (int R - int w) \<Longrightarrow> j < C \<Longrightarrow>
           as_float (visible1 (window_col d i j w) (int n) (int w + 1) 0) =
             Inr (real (if 2 \<le> w then w + 1 else 1))"
    by (simp only: windows_flat(1) [OF d] n [symmetric] vf as_float_Inr)
  show "in_range i (int w) (int R - int w) \<Longrightarrow> j < C \<Longrightarrow>
           as_float (visible2 (window_col d i j w) (int w + 1) 0) =
             Inr (real (if 2 \<le> w then w else 0))"
    by (simp only: windows_flat(1) [OF d] n [symmetric] vf as_float_Inr)
  show "i < R \<Longrightarrow> in_range j (int w) (int C - int w) \<Longrightarrow>
           as_float (visible1 (window_row d i j w) (int n) (int w + 1) 0) =
             Inr (real (if 2 \<le> w then w + 1 else 1))"
    by (simp only: windows_flat(2) [OF d] n [symmetric] vf as_float_Inr)
  show "i < R \<Longrightarrow> in_range j (int w) (int C - int w) \<Longrightarrow>
           as_float (visible2 (window_row d i j w) (int w + 1) 0) =
             Inr (real (if 2 \<le> w then w else 0))"
    by (simp only: windows_flat(2) [OF d] n [symmetric] vf as_float_Inr)
  show "in_range i (int w) (int R - int w) \<Longrightarrow> in_range j (int w) (int C - int w) \<Longrightarrow>
           as_float (visible1 (window_diag1 d i j w n) (int n) (int w + 1) 0) =
             Inr (real (if 2 \<le> w then w + 1 else 1))"
    by (simp only: windows_flat(3) [OF d _ _ le] vf as_float_Inr)
  show "in_range i (int w) (int R - int w) \<Longrightarrow> in_range j (int w) (int C - int w) \<Longrightarrow>
           as_float (visible2 (window_diag1 d i j w n) (int w + 1) 0) =
             Inr (real (if 2 \<le> w then w else 0))"
    by (simp only: windows_flat(3) [OF d _ _ le] vf as_float_Inr)
  show "in_range i (int w) (int R - int w) \<Longrightarrow> in_range j (int w) (int C - int w) \<Longrightarrow>
           as_float (visible1 (window_diag2 d i j w n) (int n) (int w + 1) 0) =
             Inr (real (if 2 \<le> w then w + 1 else 1))"
    by (simp only: windows_flat(4) [OF d _ _ le] vf as_float_Inr)
  show "in_range i (int w) (int R - int w) \<Longrightarrow> in_range j (int w) (int C - int w) \<Longrightarrow>
           as_float (visible2 (window_diag2 d i j w n) (int w + 1) 0) =
             Inr (real (if 2 \<le> w then w else 0))"
    by (simp only: windows_flat(4) [OF d _ _ le] vf as_float_Inr)
qed

lemma fill2d_guarded:
  assumes "\<And>i j. i < nr \<Longrightarrow> j < nc \<Longrightarrow> P i j \<Longrightarrow> f i j = Inr v"
  shows "fill2d nr nc (\<lambda>i j. if P i j then f i j else Inr 0) =
         Inr (tabulate2d nr nc (\<lambda>i j. if P i j then v else 0))"
  by (rule fill2d_tabulate) (simp add: assms)

lemma flat_arrays:
  assumes d: "d = replicate R (replicate C c)" and n: "n = 2 * w + 1"
  defines "k1 \<equiv> real (if 2 \<le> w then w + 1 else 1)"
    and "k2 \<equiv> real (if 2 \<le> w then w else 0)"
  shows "vis_vn d R C (int n) w 0 = Inr (tabulate2d R C (\<lambda>i j.
      if in_range j 0 (int C) \<and> in_range i (int w) (int R - int w) then k1 else 0))"
    "vis_vs d R C (int n) w 0 = Inr (tabulate2d R C (\<lambda>i j.
      if in_range j 0 (int C) \<and> in_range i (int w) (int R - int w) then k2 else 0))"
    "vis_ve d R C (int n) w 0 = Inr (tabulate2d R C (\<lambda>i j.
      if in_range j (int w) (int C - int w) \<and> in_range i 0 (int R) then k1 else 0))"
    "vis_vw d R C (int n) w 0 = Inr (tabulate2d R C (\<lambda>i j.
      if in_range j (int w) (int C - int w) \<and> in_range i 0 (int R) then k2 else 0))"
    "vis_vd1 d R C (int n) w 0 = Inr (tabulate2d R C (\<lambda>i j.
      if in_range j (int w) (int C - int w) \<and> in_range i (int w) (int R - int w) then k1 else 0))"
    "vis_vd2 d R C (int n) w 0 = Inr (tabulate2d R C (\<lambda>i j.
      if in_range j (int w) (int C - int w) \<and> in_range i (int w) (int R - int w) then k2 else 0))"
    "vis_vd3 d R C (int n) w 0 = Inr (tabulate2d R C (\<lambda>i j.
      if in_range j (int w) (int C - int w) \<and> in_range i (int w) (int R - int w) then k1 else 0))"
    "vis_vd4 d R C (int n) w 0 = Inr (tabulate2d R C (\<lambda>i j.
      if in_range j (int w) (int C - int w) \<and> in_range i (int w) (int R - int w) then k2 else 0))"
  unfolding vis_vn_def vis_vs_def vis_ve_def vis_vw_def vis_vd1_def vis_vd2_def vis_vd3_def
    vis_vd4_def k1_def k2_def nat_int
  by (rule fill2d_guarded; simp add: flat_cells [OF d n])+

lemma visibility2d_flat:
  assumes data: "ma_data data = replicate R (replicate C c)"
    and mask: "ma_mask data = replicate R (replicate C False)"
    and R: "0 < R"
    and wsize: "wsize = 2 * int w + 1"
  shows "\<exists>res. visibility2d data wsize 0 = Inr res \<and>
           ma_data (vtot res) =
             replicate (R - 2 * w) (replicate (C - 2 * w) (if 2 \<le> w then 8 * real w + 4 else 4)) \<and>
           ma_data (vstd res) = replicate (R - 2 * w) (replicate (C - 2 * w) (sqrt (2 / 7)))"
proof -
  define k2 where "k2 = real (if 2 \<le> w then w else 0)"
  define k1 where "k1 = real (if 2 \<le> w then w + 1 else 1)"
  have k: "k1 = k2 + 1" by (simp add: k1_def k2_def)
  have rm: "rect (ma_mask data) R C"
    unfolding mask by (rule rect_flat)
  have rd: "rect (ma_data data) R C"
    unfolding data by (rule rect_flat)
  have w2: "w = nat (\<bar>wsize\<bar> div 2)" using wsize by simp
  have ws: "\<bar>wsize\<bar> = int (2 * w + 1)" using wsize by simp
  have d: "fill_masked (ma_data data) (ma_mask data) (ma_mean data) = replicate R (replicate C c)"
    unfolding data mask by (rule fill_masked_no_mask)
  obtain vn vs ve vw vd1 vd2 vd3 vd4 where
    arr: "vis_vn (replicate R (replicate C c)) R C \<bar>wsize\<bar> w 0 = Inr vn"
      "vis_vs (replicate R (replicate C c)) R C \<bar>wsize\<bar> w 0 = Inr vs"
      "vis_ve (replicate R (replicate C c)) R C \<bar>wsize\<bar> w 0 = Inr ve"
      "vis_vw (replicate R (replicate C c)) R C \<bar>wsize\<bar> w 0 = Inr vw"
      "vis_vd1 (replicate R (replicate C c)) R C \<bar>wsize\<bar> w 0 = Inr vd1"
      "vis_vd2 (replicate R (replicate C c)) R C \<bar>wsize\<bar> w 0 = Inr vd2"
      "vis_vd3 (replicate R (replicate C c)) R C \<bar>wsize\<bar> w 0 = Inr vd3"
      "vis_vd4 (replicate R (replicate C c)) R C \<bar>wsize\<bar> w 0 = Inr vd4"
    and res: "visibility2d data wsize 0 = Inr
       \<lparr> vtot = \<lparr> ma_data = py_slice2 (vis_total [vn, vs, ve, vw, vd1, vd2, vd3, vd4] R C)
                               (int w) (int R - int w) (int w) (int C - int w),
                  ma_mask = py_slice2 (ma_mask data) (int w) (- int w) (int w) (- int w) \<rparr>,
         vstd = \<lparr> ma_data = py_slice2 (vis_std [vn, vs, ve, vw, vd1, vd2, vd3, vd4] R C)
                               (int w) (int R - int w) (int w) (int C - int w),
                  ma_mask = py_slice2 (ma_mask data) (int w) (- int w) (int w) (- int w) \<rparr>,
         vsum = \<lparr> ma_data = py_slice2 (vis_resultant vn vs ve vw vd1 vd2 vd3 vd4 R C)
                               (int w) (int R - int w) (int w) (int C - int w),
                  ma_mask = py_slice2 (ma_mask data) (int w) (- int w) (int w) (- int w) \<rparr>,
         caller_data = replicate R (replicate C c),
         caller_mask = ma_mask data \<rparr>"
    by (rule visibility2d_unfold [OF rd rm np_shape_rect [OF rd R] w2 d [symmetric], of 0])
  note fa = flat_arrays [OF refl refl, of R C c w, folded k1_def k2_def ws]
  have cells: "vn ! (w + i) ! (w + j) = k1" "vs ! (w + i) ! (w + j) = k2"
      "ve ! (w + i) ! (w + j) = k1" "vw ! (w + i) ! (w + j) = k2"
      "vd1 ! (w + i) ! (w + j) = k1" "vd2 ! (w + i) ! (w + j) = k2"
      "vd3 ! (w + i) ! (w + j) = k1" "vd4 ! (w + i) ! (w + j) = k2"
    if "i < R - 2 * w" "j < C - 2 * w" for i j
  proof -
    have ij: "w + i < R" "w + j < C" using that by auto
    have inr: "in_range (w + j) 0 (int C)" "in_range (w + i) (int w) (int R - int w)"
        "in_range (w + j) (int w) (int C - int w)" "in_range (w + i) 0 (int R)"
      using that by (auto simp: in_range_def)
    show "vn ! (w + i) ! (w + j) = k1"
      unfolding arr(1) [unfolded fa(1) sum.inject, symmetric]
      using ij inr by (simp add: tabulate2d_nth)
    show "vs ! (w + i) ! (w + j) = k2"
      unfolding arr(2) [unfolded fa(2) sum.inject, symmetric]
      using ij inr by (simp add: tabulate2d_nth)
    show "ve ! (w + i) ! (w + j) = k1"
      unfolding arr(3) [unfolded fa(3) sum.inject, symmetric]
      using ij inr by (simp add: tabulate2d_nth)
    show "vw ! (w + i) ! (w + j) = k2"
      unfolding arr(4) [unfolded fa(4) sum.inject, symmetric]
      using ij inr by (simp add: tabulate2d_nth)
    show "vd1 ! (w + i) ! (w + j) = k1"
      unfolding arr(5) [unfolded fa(5) sum.inject, symmetric]
      using ij inr by (simp add: tabulate2d_nth)
    show "vd2 ! (w + i) ! (w + j) = k2"
      unfolding arr(6) [unfolded fa(6) sum.inject, symmetric]
      using ij inr by (simp add: tabulate2d_nth)
    show "vd3 ! (w + i) ! (w + j) = k1"
      unfolding arr(7) [unfolded fa(7) sum.inject, symmetric]
      using ij inr by (simp add: tabulate2d_nth)
    show "vd4 ! (w + i) ! (w + j) = k2"
      unfolding arr(8) [unfolded fa(8) sum.inject, symmetric]
      using ij inr by (simp add: tabulate2d_nth)
  qed
  have tot: "py_slice2 (vis_total [vn, vs, ve, vw, vd1, vd2, vd3, vd4] R C)
        (int w) (int R - int w) (int w) (int C - int w) ! i ! j =
        (if 2 \<le> w then 8 * real w + 4 else 4)"
    if ij: "i < R - 2 * w" "j < C - 2 * w" for i j
  proof -
    have ij': "w + i < R" "w + j < C" using that by auto
    have L: "map (\<lambda>v. v ! (w + i) ! (w + j)) [vn, vs, ve, vw, vd1, vd2, vd3, vd4] =
        [k1, k2, k1, k2, k1, k2, k1, k2]"
      using cells [OF ij] by simp
    have "vis_total [vn, vs, ve, vw, vd1, vd2, vd3, vd4] R C ! (w + i) ! (w + j) =
        sum_list (map (\<lambda>v. v ! (w + i) ! (w + j)) [vn, vs, ve, vw, vd1, vd2, vd3, vd4])"
      unfolding vis_total_def by (rule tabulate2d_nth [OF ij'])
    also have "\<dots> = (if 2 \<le> w then 8 * real w + 4 else 4)"
      unfolding L by (simp add: k1_def k2_def)
    finally show ?thesis
      by (simp only: py_slice2_trim_nth [OF vis_aggregate_rect(1) ij])
  qed
  have std: "py_slice2 (vis_std [vn, vs, ve, vw, vd1, vd2, vd3, vd4] R C)
        (int w) (int R - int w) (int w) (int C - int w) ! i ! j = sqrt (2 / 7)"
    if ij: "i < R - 2 * w" "j < C - 2 * w" for i j
  proof -
    have ij': "w + i < R" "w + j < C" using that by auto
    have L: "map (\<lambda>v. v ! (w + i) ! (w + j)) [vn, vs, ve, vw, vd1, vd2, vd3, vd4] =
        [k2 + 1, k2, k2 + 1, k2, k2 + 1, k2, k2 + 1, k2]"
      using cells [OF ij] k by simp
    have "vis_std [vn, vs, ve, vw, vd1, vd2, vd3, vd4] R C ! (w + i) ! (w + j) =
        np_std_ddof1 (map (\<lambda>v. v ! (w + i) ! (w + j)) [vn, vs, ve, vw, vd1, vd2, vd3, vd4])"
      unfolding vis_std_def by (rule tabulate2d_nth [OF ij'])
    also have "\<dots> = sqrt (2 / 7)"
      unfolding L by (rule np_std_alternating)
    finally show ?thesis
      by (simp only: py_slice2_trim_nth [OF vis_aggregate_rect(2) ij])
  qed
  have "py_slice2 (vis_total [vn, vs, ve, vw, vd1, vd2, vd3, vd4] R C)
        (int w) (int R - int w) (int w) (int C - int w) =
        replicate (R - 2 * w) (replicate (C - 2 * w) (if 2 \<le> w then 8 * real w + 4 else 4))"
    by (rule rect_replicate [OF py_slice2_trim_rect [OF vis_aggregate_rect(1)] tot])
  moreover have "py_slice2 (vis_std [vn, vs, ve, vw, vd1, vd2, vd3, vd4] R C)
        (int w) (int R - int w) (int w) (int C - int w) =
        replicate (R - 2 * w) (replicate (C - 2 * w) (sqrt (2 / 7)))"
    by (rule rect_replicate [OF py_slice2_trim_rect [OF vis_aggregate_rect(2)] std])
  ultimately show ?thesis
    unfolding res by simp
qed

lemma unmasked_nonempty:
  assumes "rect (ma_data a) R C" "rect (ma_mask a) R C" "i < R" "j < C" "\<not> ma_mask a ! i ! j"
  shows "unmasked a \<noteq> []"
proof -
  have len: "length (ma_data a) = R" "length (ma_mask a) = R"
    "length (ma_data a ! i) = C" "length (ma_mask a ! i) = C"
    using assms by (auto simp: rect_def list_all_length)
  have row: "(ma_data a ! i, ma_mask a ! i) \<in> set (zip (ma_data a) (ma_mask a))"
    using assms(3) len by (auto simp: set_zip)
  have cell: "(ma_data a ! i ! j, ma_mask a ! i ! j) \<in> set (zip (ma_data a ! i) (ma_mask a ! i))"
    using assms(4) len by (auto simp: set_zip)
  have "ma_data a ! i ! j \<in> set (unmasked a)"
    unfolding unmasked_def using row cell assms(5)
    by (auto simp: image_iff intro!: bexI [of _ "(ma_data a ! i, ma_mask a ! i)"]
          bexI [of _ "(ma_data a ! i ! j, ma_mask a ! i ! j)"])
  then show ?thesis by auto
qed

lemma rect_no_cells: "rect a n m \<Longrightarrow> n = 0 \<or> m = 0 \<Longrightarrow> concat a = []"
  by (auto simp: rect_def list_all_iff)

lemma visibility2d_returns:
  assumes "rect (ma_data data) R C" "rect (ma_mask data) R C" "0 < R"
    and w2: "w2 = nat (\<bar>wsize\<bar> div 2)"
  shows "\<exists>res. visibility2d data wsize dh = Inr res \<and>
           rect (ma_data (vtot res)) (R - 2 * w2) (C - 2 * w2) \<and>
           rect (ma_data (vstd res)) (R - 2 * w2) (C - 2 * w2) \<and>
           rect (ma_data (vsum res)) (R - 2 * w2) (C - 2 * w2) \<and>
           caller_data res = fill_masked (ma_data data) (ma_mask data) (ma_mean data) \<and>
           caller_mask res = ma_mask data"
proof -
  obtain vn vs ve vw vd1 vd2 vd3 vd4 where
    res: "visibility2d data wsize dh = Inr
       \<lparr> vtot = \<lparr> ma_data = py_slice2 (vis_total [vn, vs, ve, vw, vd1, vd2, vd3, vd4] R C)
                               (int w2) (int R - int w2) (int w2) (int C - int w2),
                  ma_mask = py_slice2 (ma_mask data) (int w2) (- int w2) (int w2) (- int w2) \<rparr>,
         vstd = \<lparr> ma_data = py_slice2 (vis_std [vn, vs, ve, vw, vd1, vd2, vd3, vd4] R C)
                               (int w2) (int R - int w2) (int w2) (int C - int w2),
                  ma_mask = py_slice2 (ma_mask data) (int w2) (- int w2) (int w2) (- int w2) \<rparr>,
         vsum = \<lparr> ma_data = py_slice2 (vis_resultant vn vs ve vw vd1 vd2 vd3 vd4 R C)
                               (int w2) (int R - int w2) (int w2) (int C - int w2),
                  ma_mask = py_slice2 (ma_mask data) (int w2) (- int w2) (int w2) (- int w2) \<rparr>,
         caller_data = fill_masked (ma_data data) (ma_mask data) (ma_mean data),
         caller_mask = ma_mask data \<rparr>"
    by (rule visibility2d_unfold [OF assms(1,2) np_shape_rect [OF assms(1,3)] w2 refl, of dh])
  show ?thesis
    unfolding res by (simp add: py_slice2_trim_rect vis_aggregate_rect)
qed

section \<open>Padding size, transforms and shifts\<close>

lemma nextpow2_upper: "n \<le> 2 ^ nextpow2 n"
proof (induction n rule: nextpow2.induct)
  case (1 n)
  show ?case
  proof (cases "n \<le> 1")
    case True
    then show ?thesis by (subst nextpow2.simps) simp
  next
    case False
    with 1 have "(n + 1) div 2 \<le> 2 ^ nextpow2 ((n + 1) div 2)" by simp
    then have "n \<le> 2 * 2 ^ nextpow2 ((n + 1) div 2)" by linarith
    with False show ?thesis by (subst nextpow2.simps) simp
  qed
qed

lemma nextpow2_least: "n \<le> 2 ^ m \<Longrightarrow> nextpow2 n \<le> m"
proof (induction n arbitrary: m rule: nextpow2.induct)
  case (1 n)
  show ?case
  proof (cases "n \<le> 1")
    case True
    then show ?thesis by (subst nextpow2.simps) simp
  next
    case False
    then obtain m' where m: "m = Suc m'"
      using "1.prems" by (cases m) auto
    with "1.prems" have "(n + 1) div 2 \<le> 2 ^ m'" by simp
    with 1 False have "nextpow2 ((n + 1) div 2) \<le> m'" by simp
    with False m show ?thesis by (subst nextpow2.simps) simp
  qed
qed

lemma nextpow2_pos: "2 \<le> n \<Longrightarrow> 0 < nextpow2 n"
  by (subst nextpow2.simps) simp

lemma nextpow2_one: "nextpow2 1 = 0" "nextpow2 0 = 0" "nextpow2 (Suc 0) = 0"
  by (simp_all add: nextpow2.simps)

lemma np_shape_tabulate2d: "np_shape (tabulate2d M N f) = (if M = 0 then (0, 0) else (M, N))"
  by (cases M) (simp_all add: np_shape_def tabulate2d_def upt_conv_Cons del: upt_Suc)

lemma fft2_rect: "rect a M N \<Longrightarrow> 0 < M \<Longrightarrow> rect (fft2 a) M N"
  by (simp add: fft2_def np_shape_rect tabulate2d_rect)

lemma ifft2_rect: "rect a M N \<Longrightarrow> 0 < M \<Longrightarrow> rect (ifft2 a) M N"
  by (simp add: ifft2_def np_shape_rect tabulate2d_rect)

lemma fftshift_rect: "rect a M N \<Longrightarrow> rect (fftshift a) M N"
  by (auto simp: rect_def fftshift_def fftshift1_def list_all_iff)

lemma fftshift1_nth:
  "i < length xs \<Longrightarrow> fftshift1 xs ! i = xs ! ((length xs - length xs div 2 + i) mod length xs)"
  by (simp add: fftshift1_def nth_rotate)

lemma fftshift_nth:
  assumes "rect a M N" "i < M" "j < N"
  shows "fftshift a ! i ! j = a ! ((M - M div 2 + i) mod M) ! ((N - N div 2 + j) mod N)"
proof -
  have len: "length a = M" using assms by (simp add: rect_def)
  have i': "(M - M div 2 + i) mod M < M" using assms(2) by simp
  then have row: "length (a ! ((M - M div 2 + i) mod M)) = N"
    using assms(1) by (simp add: rect_nth_length)
  have "fftshift a ! i = map fftshift1 a ! ((M - M div 2 + i) mod M)"
    unfolding fftshift_def using assms(2) len by (simp add: fftshift1_nth)
  also have "\<dots> = fftshift1 (a ! ((M - M div 2 + i) mod M))"
    using i' len by simp
  finally show ?thesis
    using assms(3) row by (simp add: fftshift1_nth)
qed

lemma fftshift_centre:
  assumes "rect a N N" "even N" "0 < N"
  shows "fftshift a ! (N div 2) ! (N div 2) = a ! 0 ! 0"
    and "fftshift a ! 0 ! 0 = a ! (N div 2) ! (N div 2)"
proof -
  obtain h where h: "N = 2 * h" "0 < h" using assms(2,3) by (auto elim: evenE)
  have "N - N div 2 + N div 2 = N" "N - N div 2 = N div 2" "N div 2 < N"
    using h by simp_all
  then have "(N - N div 2 + N div 2) mod N = 0" "(N - N div 2 + 0) mod N = N div 2" "N div 2 < N"
    by simp_all
  then show "fftshift a ! (N div 2) ! (N div 2) = a ! 0 ! 0"
    and "fftshift a ! 0 ! 0 = a ! (N div 2) ! (N div 2)"
    using fftshift_nth [OF assms(1), of "N div 2" "N div 2"]
      fftshift_nth [OF assms(1), of 0 0] assms(3)
    by simp_all
qed

lemma radial_freq_centre:
  assumes "even N"
  shows "radial_freq N xint (N div 2) (N div 2) = 0"
proof -
  have "real (N div 2) = real N / 2"
    using assms by (auto elim: evenE)
  then show ?thesis
    by (simp add: radial_freq_def Let_def)
qed

lemma py_slice_crop:
  assumes "k + n \<le> length xs"
  shows "py_slice xs (int k) (int n + int k) = take n (drop k xs)"
proof -
  have "int n + int k = int (n + k)" by simp
  then show ?thesis
    by (simp only: py_slice_nat) simp
qed

lemma py_slice2_crop_rect:
  assumes "rect a M N" "r0 + nr \<le> M" "c0 + nc \<le> N"
  shows "rect (py_slice2 a (int r0) (int nr + int r0) (int c0) (int nc + int c0)) nr nc"
proof -
  have len: "length a = M" using assms(1) by (simp add: rect_def)
  have rows: "r \<in> set (take nr (drop r0 a)) \<Longrightarrow> length r = N" for r
    using assms(1) by (auto simp: rect_def list_all_iff dest!: in_set_takeD in_set_dropD)
  have a: "py_slice a (int r0) (int nr + int r0) = take nr (drop r0 a)"
    using assms(2) len by (intro py_slice_crop) simp
  have b: "length (py_slice r (int c0) (int nc + int c0)) = nc" if "r \<in> set (take nr (drop r0 a))" for r
    using rows [OF that] assms(3) by (simp add: py_slice_crop)
  show ?thesis
    unfolding rect_def py_slice2_def a
    using assms(2) len b by (auto simp: list_all_iff)
qed

lemma half_pad:
  assumes "n \<le> N" and "b = (N - n) div 2"
  shows "(int N - int n) div 2 = int b" "int N - int b - int n = int (N - b - n)" "b + n \<le> N"
proof -
  have le: "b \<le> N - n" unfolding assms(2) by (rule div_le_dividend)
  show "b + n \<le> N" using le assms(1) by simp
  then show "int N - int b - int n = int (N - b - n)" by simp
  have "int N - int n = int (N - n)" using assms(1) by simp
  then show "(int N - int n) div 2 = int b"
    unfolding assms(2) by (simp only: zdiv_int of_nat_numeral)
qed

lemma vertical_pads_ok:
  assumes "max nr nc \<le> N"
  obtains rb ra cb ca where
    "vertical_pads nr nc N = (int rb, int ra, int cb, int ca)"
    "rb + nr \<le> N" "cb + nc \<le> N" "rb + nr + ra = N" "cb + nc + ca = N"
proof -
  have nr: "nr \<le> N" and nc: "nc \<le> N" using assms by auto
  note r = half_pad [OF nr refl] and c = half_pad [OF nc refl]
  have "vertical_pads nr nc N =
      (int ((N - nr) div 2), int (N - (N - nr) div 2 - nr),
       int ((N - nc) div 2), int (N - (N - nc) div 2 - nc))"
    unfolding vertical_pads_def Let_def r(1) c(1) r(2) c(2) ..
  moreover have "(N - nr) div 2 + nr + (N - (N - nr) div 2 - nr) = N"
    "(N - nc) div 2 + nc + (N - (N - nc) div 2 - nc) = N"
    using r(3) c(3) by simp_all
  ultimately show thesis
    using r(3) c(3) by (intro that)
qed

lemma rect_map_map: "rect a M N \<Longrightarrow> rect (map (map f) a) M N"
  by (simp add: rect_def list_all_iff)

lemma median_removed_rect:
  assumes "rect (ma_data a) nr nc" "rect (ma_mask a) nr nc"
  shows "rect (median_removed a) nr nc"
  using assms by (auto simp: rect_def median_removed_def list_all_length)

lemma pad_edge_length: "length (pad_edge xs b a) = b + length xs + a"
  by (simp add: pad_edge_def)

lemma pad_edge2_rect:
  assumes "rect z nr nc" "0 < nr"
  shows "rect (pad_edge2 z rb ra cb ca) (rb + nr + ra) (cb + nc + ca)"
proof -
  let ?rows = "map (\<lambda>row. pad_edge row cb ca) z"
  have len: "length ?rows = nr" using assms(1) by (simp add: rect_def)
  have rows: "r \<in> set ?rows \<Longrightarrow> length r = cb + nc + ca" for r
    using assms(1) by (auto simp: rect_def list_all_iff pad_edge_length)
  have ne: "?rows \<noteq> []" using len assms(2) by auto
  then have "hd ?rows \<in> set ?rows" "last ?rows \<in> set ?rows"
    by (rule hd_in_set, rule last_in_set)
  then have "r \<in> set (pad_edge ?rows rb ra) \<Longrightarrow> length r = cb + nc + ca" for r
    using rows by (auto simp: pad_edge_def)
  moreover have "length (pad_edge ?rows rb ra) = rb + nr + ra"
    unfolding pad_edge_length len ..
  ultimately show ?thesis
    unfolding rect_def pad_edge2_def list_all_iff by blast
qed

section \<open>The vertical derivative returns\<close>

lemma vertical_weighted_Inr:
  assumes "rect (ma_data data) nr nc" "0 < nr" "0 < nc"
    and N: "N = vertical_npts nr nc npts" "max nr nc \<le> N" "xint * (int N - 1) \<noteq> 0"
    and mask: "rect (ma_mask data) nr nc"
  obtains f where "rect f N N" "f = fftshift (vertical_fft data npts)"
    "vertical_weighted data npts xint =
       Inr (fftshift (tabulate2d N N (\<lambda>i j. f ! i ! j * complex_of_real (radial_freq N xint i j))))"
proof -
  obtain rb ra cb ca where pads: "vertical_pads nr nc N = (int rb, int ra, int cb, int ca)"
    and sz: "rb + nr + ra = N" "cb + nc + ca = N"
    using vertical_pads_ok [OF N(2)] by metis
  let ?f0 = "fft2 (map (map complex_of_real) (pad_edge2 (median_removed data) rb ra cb ca))"
  have ne: "\<not> (nr = 0 \<or> nc = 0)" using assms(2,3) by simp
  have nonneg: "\<not> (int rb < 0 \<or> int ra < 0 \<or> int cb < 0 \<or> int ca < 0)" by simp
  have eq: "vertical_weighted data npts xint =
      Inr (fftshift (tabulate2d N N (\<lambda>i j.
        fftshift ?f0 ! i ! j * complex_of_real (radial_freq N xint i j))))"
    unfolding vertical_weighted_def np_shape_rect [OF assms(1,2)] Let_def prod.case
      N(1) [symmetric] pads
    by (simp only: ne nonneg N(3) if_False nat_int)
  have "rect (pad_edge2 (median_removed data) rb ra cb ca) N N"
    using pad_edge2_rect [OF median_removed_rect [OF assms(1) mask] assms(2), of rb ra cb ca]
    unfolding sz .
  then have "rect (map (map complex_of_real) (pad_edge2 (median_removed data) rb ra cb ca)) N N"
    by (rule rect_map_map)
  moreover have "0 < N" using assms(2) N(2) by simp
  ultimately have "rect (fftshift ?f0) N N"
    by (intro fftshift_rect fft2_rect)
  moreover have "vertical_fft data npts = ?f0"
    unfolding vertical_fft_def np_shape_rect [OF assms(1,2)] Let_def prod.case
      N(1) [symmetric] pads
    by (simp only: nat_int)
  ultimately show thesis
    using eq by (intro that [of "fftshift ?f0"]) simp_all
qed

lemma vertical_Inr:
  assumes "rect (ma_data data) nr nc" "0 < nr" "0 < nc"
    and N: "N = vertical_npts nr nc npts" "max nr nc \<le> N" "xint * (int N - 1) \<noteq> 0"
    and mask: "rect (ma_mask data) nr nc"
  shows "\<exists>fz dz. vertical_weighted data npts xint = Inr fz \<and> rect fz N N \<and>
           vertical data npts xint = Inr dz \<and> rect dz nr nc"
proof -
  obtain f where fz: "vertical_weighted data npts xint =
       Inr (fftshift (tabulate2d N N (\<lambda>i j. f ! i ! j * complex_of_real (radial_freq N xint i j))))"
    by (rule vertical_weighted_Inr [OF assms]) blast
  let ?fz = "fftshift (tabulate2d N N (\<lambda>i j. f ! i ! j * complex_of_real (radial_freq N xint i j)))"
  obtain rb ra cb ca where pads: "vertical_pads nr nc N = (int rb, int ra, int cb, int ca)"
    and le: "rb + nr \<le> N" "cb + nc \<le> N"
    by (rule vertical_pads_ok [OF N(2)])
  have Npos: "0 < N" using assms(2) N(2) by simp
  have r1: "rect ?fz N N"
    by (rule fftshift_rect [OF tabulate2d_rect])
  have r2: "rect (ifft2 ?fz) N N"
    by (rule ifft2_rect [OF r1 Npos])
  have r3: "rect (map (map Re) (py_slice2 (ifft2 ?fz) (int rb) (int nr + int rb) (int cb) (int nc + int cb))) nr nc"
    by (rule rect_map_map [OF py_slice2_crop_rect [OF r2 le]])
  have "vertical data npts xint =
      Inr (map (map Re) (py_slice2 (ifft2 ?fz) (int rb) (int nr + int rb) (int cb) (int nc + int cb)))"
    unfolding vertical_def fz bind_e_def np_shape_rect [OF assms(1,2)] Let_def prod.case
      N(1) [symmetric] pads sum.case ..
  with fz r1 r3 show ?thesis by blast
qed

lemma vertical_npts_default:
  "vertical_npts nr nc None = 2 ^ nextpow2 (max nr nc)"
  "vertical_npts nr nc (Some n) = n"
  by (simp_all add: vertical_npts_def)

lemma pow2_nextpow2_ge2:
  assumes "2 \<le> n"
  shows "2 \<le> (2 :: nat) ^ nextpow2 n" "even ((2 :: nat) ^ nextpow2 n)"
proof -
  from nextpow2_pos [OF assms] obtain m where m: "nextpow2 n = Suc m"
    by (cases "nextpow2 n") auto
  show "2 \<le> (2 :: nat) ^ nextpow2 n" "even ((2 :: nat) ^ nextpow2 n)"
    unfolding m by simp_all
qed

lemma vertical_pads_nonneg:
  assumes "vertical_pads nr nc N = (rdiff, rdiff2, cdiff, cdiff2)"
    and "\<not> (rdiff < 0 \<or> rdiff2 < 0 \<or> cdiff < 0 \<or> cdiff2 < 0)"
  shows "max nr nc \<le> N"
proof -
  have r: "rdiff = (int N - int nr) div 2" and c: "cdiff = (int N - int nc) div 2"
    using assms(1) by (simp_all add: vertical_pads_def Let_def)
  have "0 \<le> (int N - int nr) div 2" "0 \<le> (int N - int nc) div 2"
    using assms(2) r c by simp_all
  then have "0 \<le> int N - int nr" "0 \<le> int N - int nc"
    by presburger+
  then show ?thesis by simp
qed

lemma vertical_weighted_InrD:
  assumes "rect (ma_data data) nr nc"
    and "vertical_weighted data npts xint = Inr fz"
    and N: "N = vertical_npts nr nc npts"
  shows "0 < nr" "0 < nc" "max nr nc \<le> N" "xint * (int N - 1) \<noteq> 0"
proof -
  show nr: "0 < nr"
  proof (rule ccontr)
    assume "\<not> 0 < nr"
    then have "np_shape (ma_data data) = (0, 0)"
      using assms(1) np_shape_empty [of "ma_data data" nc] by simp
    then have "vertical_weighted data npts xint = Inl ValueError"
      by (simp add: vertical_weighted_def Let_def split: prod.splits)
    with assms(2) show False by simp
  qed
  have sh: "np_shape (ma_data data) = (nr, nc)"
    by (rule np_shape_rect [OF assms(1) nr])
  obtain rdiff rdiff2 cdiff cdiff2 where
    pads: "vertical_pads nr nc N = (rdiff, rdiff2, cdiff, cdiff2)"
    by (cases "vertical_pads nr nc N") auto
  have w: "(if nr = 0 \<or> nc = 0 then Inl ValueError
       else if rdiff < 0 \<or> rdiff2 < 0 \<or> cdiff < 0 \<or> cdiff2 < 0 then Inl ValueError
       else if xint * (int N - 1) = 0 then Inl ZeroDivisionError
       else Inr fz) = (Inr fz :: error + complex list list)"
    using assms(2) unfolding vertical_weighted_def sh Let_def prod.case N [symmetric] pads
    by (simp split: if_splits)
  show "0 < nc" using w by (simp split: if_splits)
  have "\<not> (rdiff < 0 \<or> rdiff2 < 0 \<or> cdiff < 0 \<or> cdiff2 < 0)"
    using w by (simp split: if_splits)
  then show "max nr nc \<le> N"
    by (rule vertical_pads_nonneg [OF pads])
  show "xint * (int N - 1) \<noteq> 0" using w by (simp split: if_splits)
qed

section \<open>Bins of the shifted spectrum\<close>

lemma shift_back:
  assumes "i < (N :: nat)"
  shows "(N - N div 2 + (i + N div 2) mod N) mod N = i"
proof -
  have "(N - N div 2 + (i + N div 2) mod N) mod N = (N - N div 2 + (i + N div 2)) mod N"
    by (rule mod_add_right_eq)
  also have "N - N div 2 + (i + N div 2) = i + N" by simp
  also have "(i + N) mod N = i" using assms by simp
  finally show ?thesis .
qed

lemma fftshift_stored:
  assumes "rect a N N" "i < N" "j < N"
  shows "fftshift a ! ((i + N div 2) mod N) ! ((j + N div 2) mod N) = a ! i ! j"
proof -
  have "(i + N div 2) mod N < N" "(j + N div 2) mod N < N" using assms by simp_all
  from fftshift_nth [OF assms(1) this] show ?thesis
    by (simp only: shift_back [OF assms(2)] shift_back [OF assms(3)])
qed

lemma fftshift_zero_bin:
  assumes "rect a N N" "0 < N"
  shows "fftshift a ! (N div 2) ! (N div 2) = a ! 0 ! 0"
proof -
  have h: "N div 2 < N" using assms(2) by simp
  have "(N - N div 2 + N div 2) mod N = 0" by simp
  with fftshift_nth [OF assms(1) h h] show ?thesis by simp
qed

lemma fft2_dc:
  assumes "rect a M N" "0 < M" "0 < N"
  shows "fft2 a ! 0 ! 0 = (\<Sum>m < M. \<Sum>n < N. a ! m ! n)"
  unfolding fft2_def np_shape_rect [OF assms(1,2)] Let_def prod.case
    tabulate2d_nth [OF assms(2,3)]
  by simp

lemma three_by_three:
  fixes g :: masked_array
  defines "g \<equiv> \<lparr> ma_data = [[0, 0, 0], [0, 0, 0], [0, 0, 9]],
               ma_mask = [[False, False, False], [False, False, False], [False, False, False]] \<rparr>"
  shows "vertical_fft g (Some 3) ! 0 ! 0 = 9"
proof -
  have med: "ma_median g = 0"
    by (simp add: g_def ma_median_def unmasked_def Let_def)
  have z: "median_removed g = [[0, 0, 0], [0, 0, 0], [0, 0, 9]]"
    unfolding median_removed_def med by (simp add: g_def)
  have pads: "vertical_pads 3 3 3 = (0, 0, 0, 0)"
    by (simp add: vertical_pads_def)
  have sh: "np_shape (ma_data g) = (3, 3)"
    by (simp add: g_def np_shape_def)
  have F: "vertical_fft g (Some 3) = fft2 [[0, 0, 0], [0, 0, 0], [0, 0, 9]]"
    unfolding vertical_fft_def sh Let_def prod.case vertical_npts_default pads z
    by (simp add: pad_edge2_def pad_edge_def)
  have r: "rect [[0, 0, 0], [0, 0, 0], [0, 0, 9 :: complex]] 3 3"
    by (simp add: rect_def)
  have "fft2 [[0, 0, 0], [0, 0, 0], [0, 0, 9 :: complex]] ! 0 ! 0 =
      (\<Sum>m < 3. \<Sum>n < 3. [[0, 0, 0], [0, 0, 0], [0, 0, 9 :: complex]] ! m ! n)"
    by (rule fft2_dc [OF r]) simp_all
  also have "\<dots> = 9"
    by (simp add: lessThan_Suc eval_nat_numeral)
  finally show ?thesis
    unfolding F .
qed

section \<open>The sweeps against the naive re-scan\<close>

text \<open>
  The state in which the loop of each sweep ends: the count is the count of the naive
  re-scan (one more in \<^verbatim>\<open>__visible1\<close>, which starts from 2), and the running maximum is
  the maximum of all the angles of the ray.
\<close>

lemma running_max_naive:
  "running_max ts (1, t) = (naive_count (t # ts), fold max ts t)"
  using running_max_snd [of ts 1 t] naive_count_Cons [of t ts]
  by (simp add: prod_eq_iff)

text \<open>
  Claim C1. A window \<open>dat\<close> is swept from its centre cell \<open>c\<close>: \<^verbatim>\<open>__visible1\<close> is called with
  \<open>nr = n\<close> and \<open>cp = c + 1\<close> and sweeps the ray \<open>dat[c+1 .. n-1]\<close>, \<^verbatim>\<open>__visible2\<close> is called
  with \<open>cp = c + 1\<close> and sweeps the ray \<open>dat[c-1], ..., dat[0]\<close>. Unless the ray has exactly
  one step, the count of \<^verbatim>\<open>__visible2\<close> is the number of steps whose angle is at least the
  maximum angle of all closer steps, the maximum being recomputed from scratch for every
  step, and the count of \<^verbatim>\<open>__visible1\<close> is that number plus one (the centre cell). A ray of
  exactly one step is excluded: there the guards \<^verbatim>\<open>cp < nr-1\<close> and \<^verbatim>\<open>cp > 2\<close> skip the sweep.
\<close>

theorem sweep_equals_naive_rescan:
  assumes "n \<le> length dat" "c < n"
  shows "(n \<noteq> c + 2 \<longrightarrow>
           visible1 dat (int n) (int c + 1) dh =
             Inr (1 + naive_count (spec_angles (dat ! c) dh (take (n - Suc c) (drop (Suc c) dat)))))
       \<and> (c \<noteq> 1 \<longrightarrow>
           visible2 dat (int c + 1) dh =
             Inr (naive_count (spec_angles (dat ! c) dh (rev (take c dat)))))"
proof (intro conjI impI)
  assume "n \<noteq> c + 2"
  then consider "c + 2 < n" | "n = c + 1" using assms by linarith
  then show "visible1 dat (int n) (int c + 1) dh =
      Inr (1 + naive_count (spec_angles (dat ! c) dh (take (n - Suc c) (drop (Suc c) dat))))"
  proof cases
    case 1
    with assms show ?thesis by (intro visible1_sweep)
  next
    case 2
    then show ?thesis
      by (simp add: visible1_def naive_count_def spec_angles_def)
  qed
next
  assume "c \<noteq> 1"
  then consider "2 \<le> c" | "c = 0" by linarith
  then show "visible2 dat (int c + 1) dh =
      Inr (naive_count (spec_angles (dat ! c) dh (rev (take c dat))))"
  proof cases
    case 1
    with assms show ?thesis by (intro visible2_sweep) auto
  next
    case 2
    then show ?thesis
      by (simp add: visible2_def naive_count_def spec_angles_def)
  qed
qed

theorem sweep_equals_naive_rescan_witness:
  "visible1 [3, 1, 2, 5, 4] 5 3 0 = Inr 2 \<and> visible2 [3, 1, 2, 5, 4] 3 0 = Inr 2"
proof -
  have a: "naive_count (spec_angles 2 0 [5, 4]) = 1"
    by (simp add: naive_count_def naive_visible_def spec_angles_def upt_rec)
  have b: "naive_count (spec_angles 2 0 [1, 3]) = 2"
    by (simp add: naive_count_def naive_visible_def spec_angles_def upt_rec)
  have h1: "5 \<le> length [3, 1, 2, 5, 4 :: real]" and h2: "(2 :: nat) < 5"
    by simp_all
  from sweep_equals_naive_rescan [OF h1 h2, of 0] a b show ?thesis
    by simp
qed

text \<open>On a window of three cells both rays have one step. The step has no closer step,
  so the naive re-scan counts it, and the sweeps do not.\<close>

theorem one_step_ray_counterexample:
  "visible2 [5, 1, 9] 2 0 = Inr 0 \<and>
   naive_count (spec_angles ([5, 1, 9] ! 1) 0 (rev (take 1 [5, 1, 9]))) = 1 \<and>
   visible2 [5, 1, 9] 2 0 \<noteq> Inr (naive_count (spec_angles ([5, 1, 9] ! 1) 0 (rev (take 1 [5, 1, 9])))) \<and>
   visible1 [5, 1, 9] 3 2 0 = Inr 1 \<and>
   visible1 [5, 1, 9] 3 2 0 \<noteq>
     Inr (1 + naive_count (spec_angles ([5, 1, 9] ! 1) 0 (take (3 - Suc 1) (drop (Suc 1) [5, 1, 9]))))"
  by (simp add: visible1_def visible2_def naive_count_def naive_visible_def spec_angles_def)

section \<open>Shape of the output of the visibility filter\<close>

lemma rect_1_1: "rect a (Suc 0) (Suc 0) \<Longrightarrow> a = [[a ! 0 ! 0]]"
  by (auto simp: rect_def length_Suc_conv)

text \<open>
  Claim C2. For a grid of shape \<open>(R, C)\<close> and an odd window size \<open>2 w + 1\<close> with \<open>w \<ge> 1\<close>
  and \<open>2 w < min R C\<close>, \<^verbatim>\<open>visibility2d\<close> returns, and each of the three arrays it returns
  (total visibility, standard deviation, vector resultant) has the shape
  \<open>(R - 2 w, C - 2 w)\<close>; the three masks are equal, and the mask cell \<open>(i, j)\<close> of the output
  is the mask cell \<open>(w + i, w + j)\<close> of the input: the input mask without a border of
  width \<open>w\<close>.
\<close>

theorem visibility2d_shape:
  assumes "rect (ma_data data) R C" "rect (ma_mask data) R C"
    and "wsize = 2 * int w + 1" "1 \<le> w" "2 * w < min R C"
  shows "\<exists>res. visibility2d data wsize dh = Inr res \<and>
           rect (ma_data (vtot res)) (R - 2 * w) (C - 2 * w) \<and>
           rect (ma_data (vstd res)) (R - 2 * w) (C - 2 * w) \<and>
           rect (ma_data (vsum res)) (R - 2 * w) (C - 2 * w) \<and>
           rect (ma_mask (vtot res)) (R - 2 * w) (C - 2 * w) \<and>
           ma_mask (vstd res) = ma_mask (vtot res) \<and>
           ma_mask (vsum res) = ma_mask (vtot res) \<and>
           (\<forall>i < R - 2 * w. \<forall>j < C - 2 * w.
              ma_mask (vtot res) ! i ! j = ma_mask data ! (w + i) ! (w + j))"
proof -
  have R: "0 < R" "0 < w" using assms by auto
  have w2: "w = nat (\<bar>wsize\<bar> div 2)" using assms(3) by simp
  obtain vn vs ve vw vd1 vd2 vd3 vd4 where
    res: "visibility2d data wsize dh = Inr
       \<lparr> vtot = \<lparr> ma_data = py_slice2 (vis_total [vn, vs, ve, vw, vd1, vd2, vd3, vd4] R C)
                               (int w) (int R - int w) (int w) (int C - int w),
                  ma_mask = py_slice2 (ma_mask data) (int w) (- int w) (int w) (- int w) \<rparr>,
         vstd = \<lparr> ma_data = py_slice2 (vis_std [vn, vs, ve, vw, vd1, vd2, vd3, vd4] R C)
                               (int w) (int R - int w) (int w) (int C - int w),
                  ma_mask = py_slice2 (ma_mask data) (int w) (- int w) (int w) (- int w) \<rparr>,
         vsum = \<lparr> ma_data = py_slice2 (vis_resultant vn vs ve vw vd1 vd2 vd3 vd4 R C)
                               (int w) (int R - int w) (int w) (int C - int w),
                  ma_mask = py_slice2 (ma_mask data) (int w) (- int w) (int w) (- int w) \<rparr>,
         caller_data = fill_masked (ma_data data) (ma_mask data) (ma_mean data),
         caller_mask = ma_mask data \<rparr>"
    by (rule visibility2d_unfold [OF assms(1,2) np_shape_rect [OF assms(1) R(1)] w2 refl, of dh])
  note m = py_slice2_neg [OF assms(2) R(2)]
  show ?thesis
    unfolding res
    by (simp add: m py_slice2_trim_rect vis_aggregate_rect assms(2) py_slice2_trim_nth [OF assms(2)])
qed

theorem visibility2d_shape_witness:
  "\<exists>res. visibility2d \<lparr> ma_data = [[1, 2, 3], [4, 5, 6], [7, 8, 9]],
                          ma_mask = [[False, False, False], [False, True, False],
                                     [False, False, False]] \<rparr> 3 0 = Inr res \<and>
         rect (ma_data (vtot res)) 1 1 \<and> rect (ma_data (vstd res)) 1 1 \<and>
         rect (ma_data (vsum res)) 1 1 \<and>
         ma_mask (vtot res) = [[True]] \<and> ma_mask (vstd res) = [[True]] \<and>
         ma_mask (vsum res) = [[True]]"
proof -
  let ?g = "\<lparr> ma_data = [[1, 2, 3], [4, 5, 6], [7, 8, 9 :: real]],
              ma_mask = [[False, False, False], [False, True, False],
                         [False, False, False]] \<rparr>"
  have h1: "rect (ma_data ?g) 3 3" and h2: "rect (ma_mask ?g) 3 3"
    by (simp_all add: rect_def)
  have h3: "(3 :: int) = 2 * int 1 + 1" and h4: "(1 :: nat) \<le> 1" and h5: "2 * (1 :: nat) < min 3 3"
    by simp_all
  from visibility2d_shape [OF h1 h2 h3 h4 h5, of 0]
  obtain res where res: "visibility2d ?g 3 0 = Inr res"
    and sh: "rect (ma_data (vtot res)) 1 1" "rect (ma_data (vstd res)) 1 1"
      "rect (ma_data (vsum res)) 1 1" "rect (ma_mask (vtot res)) 1 1"
    and eq: "ma_mask (vstd res) = ma_mask (vtot res)" "ma_mask (vsum res) = ma_mask (vtot res)"
    and cell: "\<forall>i < 1. \<forall>j < 1. ma_mask (vtot res) ! i ! j = ma_mask ?g ! (1 + i) ! (1 + j)"
    by auto
  from cell have "ma_mask (vtot res) ! 0 ! 0 = True" by simp
  with rect_1_1 [of "ma_mask (vtot res)"] sh(4) have "ma_mask (vtot res) = [[True]]"
    by simp
  with res sh eq show ?thesis by auto
qed

section \<open>A constant grid\<close>

text \<open>
  Claim C3. On a grid without a masked cell whose cells all hold the same number, with
  \<open>dh = 0\<close> and an odd window size \<open>2 w + 1 \<ge> 3\<close>: for \<open>w \<ge> 2\<close> every step of every ray
  is counted, so that \<^verbatim>\<open>__visible1\<close> returns \<open>w + 1\<close> (the \<open>w\<close> steps and the centre) and
  \<^verbatim>\<open>__visible2\<close> returns \<open>w\<close>; for \<open>w = 1\<close> they return 1 and 0. The four counts of
  \<^verbatim>\<open>__visible1\<close> are one more than the four counts of \<^verbatim>\<open>__visible2\<close>, so the standard
  deviation (ddof = 1) of the eight counts is \<open>sqrt (2 / 7)\<close> at every output cell, and the
  total is \<open>8 w + 4\<close> (4 for \<open>w = 1\<close>). With no masked cell the fill writes nothing and
  every angle is \<open>(c - c - 0) / i = 0\<close>. (A masked cell is filled with the mean, which the
  program rounds; the filled cell then need not tie with the others.)
\<close>

theorem constant_grid_visibility:
  assumes "ma_data data = replicate R (replicate C c)"
    and "ma_mask data = replicate R (replicate C False)"
    and "0 < R"
    and "wsize = 2 * int w + 1" "1 \<le> w"
  shows "visible1 (replicate (2 * w + 1) c) wsize (int w + 1) 0 = Inr (if 2 \<le> w then w + 1 else 1)
       \<and> visible2 (replicate (2 * w + 1) c) (int w + 1) 0 = Inr (if 2 \<le> w then w else 0)
       \<and> (\<exists>res. visibility2d data wsize 0 = Inr res \<and>
             ma_data (vtot res) =
               replicate (R - 2 * w) (replicate (C - 2 * w) (if 2 \<le> w then 8 * real w + 4 else 4)) \<and>
             ma_data (vstd res) = replicate (R - 2 * w) (replicate (C - 2 * w) (sqrt (2 / 7))))"
proof -
  have ws: "wsize = int (2 * w + 1)" using assms(4) by simp
  show ?thesis
    using visible_flat [OF refl, of w c] visibility2d_flat [OF assms(1-4)]
    unfolding ws by simp
qed

theorem constant_grid_visibility_witness:
  "visible1 (replicate 5 7) 5 3 0 = Inr 3 \<and> visible2 (replicate 5 7) 3 0 = Inr 2 \<and>
   (\<exists>res. visibility2d \<lparr> ma_data = replicate 5 (replicate 5 7),
                          ma_mask = replicate 5 (replicate 5 False) \<rparr> 5 0 = Inr res \<and>
          ma_data (vtot res) = [[20]] \<and> ma_data (vstd res) = [[sqrt (2 / 7)]])"
proof -
  let ?g = "\<lparr> ma_data = replicate 5 (replicate 5 (7 :: real)),
              ma_mask = replicate 5 (replicate 5 False) \<rparr>"
  have h1: "ma_data ?g = replicate 5 (replicate 5 7)" by simp
  have h2: "ma_mask ?g = replicate 5 (replicate 5 False)" by simp
  have h3: "(0 :: nat) < 5" by simp
  have h4: "(5 :: int) = 2 * int 2 + 1" and h5: "(1 :: nat) \<le> 2" by simp_all
  have n: "replicate (2 * 2 + 1) (7 :: real) = replicate 5 7" by simp
  from constant_grid_visibility [OF h1 h2 h3 h4 h5]
  show ?thesis unfolding n by simp
qed

text \<open>On the constant 5 by 5 grid with a window of 5 cells every step is counted, and
  the standard deviation at the one output cell is \<open>sqrt (2 / 7)\<close>, not 0.\<close>

theorem constant_grid_std_counterexample:
  "map_sum id (ma_data \<circ> vstd)
     (visibility2d \<lparr> ma_data = replicate 5 (replicate 5 7),
                      ma_mask = replicate 5 (replicate 5 False) \<rparr> 5 0) = Inr [[sqrt (2 / 7)]]
   \<and> sqrt (2 / 7) \<noteq> (0 :: real)"
proof -
  let ?g = "\<lparr> ma_data = replicate 5 (replicate 5 (7 :: real)),
              ma_mask = replicate 5 (replicate 5 False) \<rparr>"
  have h1: "ma_data ?g = replicate 5 (replicate 5 7)" by simp
  have h2: "ma_mask ?g = replicate 5 (replicate 5 False)" by simp
  have h3: "(0 :: nat) < 5" by simp
  have h4: "(5 :: int) = 2 * int 2 + 1" by simp
  from visibility2d_flat [OF h1 h2 h3 h4]
  show ?thesis by auto
qed

section \<open>The grid of constant slope\<close>

text \<open>
  Claim C4. On the 7 by 7 grid with \<open>value[i][j] = i\<close> and no masked cell, called with
  \<^verbatim>\<open>window_size = 3\<close> (so \<open>wsize = 3\<close>, \<open>w2 = 1\<close>) and \<open>dh = 0\<close>, the array \<^verbatim>\<open>vn\<close> of the north
  counts holds 1 at every cell of the rows 1 to 5, and the array \<^verbatim>\<open>vs\<close> of the south counts
  holds 0 everywhere: at every interior cell the north count is 1 and the south count
  is 0.
\<close>

theorem slope_grid_north_south:
  "vis_vn (fill_masked (tabulate2d 7 7 (\<lambda>i j. real i)) (replicate 7 (replicate 7 False))
             (ma_mean \<lparr> ma_data = tabulate2d 7 7 (\<lambda>i j. real i),
                        ma_mask = replicate 7 (replicate 7 False) \<rparr>)) 7 7 3 1 0 =
     Inr [[0, 0, 0, 0, 0, 0, 0],
          [1, 1, 1, 1, 1, 1, 1],
          [1, 1, 1, 1, 1, 1, 1],
          [1, 1, 1, 1, 1, 1, 1],
          [1, 1, 1, 1, 1, 1, 1],
          [1, 1, 1, 1, 1, 1, 1],
          [0, 0, 0, 0, 0, 0, 0]]
   \<and>
   vis_vs (fill_masked (tabulate2d 7 7 (\<lambda>i j. real i)) (replicate 7 (replicate 7 False))
             (ma_mean \<lparr> ma_data = tabulate2d 7 7 (\<lambda>i j. real i),
                        ma_mask = replicate 7 (replicate 7 False) \<rparr>)) 7 7 3 1 0 =
     Inr [[0, 0, 0, 0, 0, 0, 0],
          [0, 0, 0, 0, 0, 0, 0],
          [0, 0, 0, 0, 0, 0, 0],
          [0, 0, 0, 0, 0, 0, 0],
          [0, 0, 0, 0, 0, 0, 0],
          [0, 0, 0, 0, 0, 0, 0],
          [0, 0, 0, 0, 0, 0, 0]]"
  unfolding vis_arrays_window3
  by (simp add: tabulate2d_def in_range_def upt_rec)

text \<open>The south count at the interior cell \<open>(3, 3)\<close> is 0, not 1.\<close>

theorem slope_grid_south_counterexample:
  "map_sum id (\<lambda>vs. vs ! 3 ! 3)
     (vis_vs (fill_masked (tabulate2d 7 7 (\<lambda>i j. real i)) (replicate 7 (replicate 7 False))
                (ma_mean \<lparr> ma_data = tabulate2d 7 7 (\<lambda>i j. real i),
                           ma_mask = replicate 7 (replicate 7 False) \<rparr>)) 7 7 3 1 0) = Inr 0
   \<and> (0 :: real) \<noteq> 1"
  unfolding vis_arrays_window3
  by (simp add: tabulate2d_nth)

section \<open>The caller's buffer\<close>

text \<open>
  Claim C5. \<^verbatim>\<open>visibility2d\<close> makes no copy of its argument: \<^verbatim>\<open>data = data.data\<close> is the
  buffer of the caller's masked array and \<^verbatim>\<open>data[mask] = mean\<close> writes to it. When the call
  returns, the caller's mask is what it was, each cell of the caller's buffer that is not
  masked holds what it held before, and each masked cell holds \<^verbatim>\<open>data.mean()\<close>, the mean
  of the cells that are not masked (the grid has at least one).
\<close>

theorem visibility2d_fills_caller_buffer:
  assumes "rect (ma_data data) R C" "rect (ma_mask data) R C" "unmasked data \<noteq> []"
  shows "\<exists>res. visibility2d data wsize dh = Inr res \<and>
           caller_mask res = ma_mask data \<and>
           rect (caller_data res) R C \<and>
           (\<forall>i < R. \<forall>j < C. caller_data res ! i ! j =
              (if ma_mask data ! i ! j then ma_mean data else ma_data data ! i ! j))"
proof -
  have R: "0 < R"
    using assms by (cases R) (auto simp: unmasked_def rect_def)
  show ?thesis
    using visibility2d_returns [OF assms(1,2) R refl, of wsize dh]
      fill_masked_rect [OF assms(1,2)] fill_masked_nth [OF assms(1,2)]
    by auto
qed

theorem visibility2d_fills_caller_buffer_witness:
  "\<exists>res. visibility2d \<lparr> ma_data = [[1, 2, 3], [4, 100, 6], [7, 8, 9]],
                         ma_mask = [[False, False, False], [False, True, False],
                                    [False, False, False]] \<rparr> 3 0 = Inr res \<and>
         caller_mask res = [[False, False, False], [False, True, False],
                            [False, False, False]] \<and>
         caller_data res ! 1 ! 1 = 5 \<and> caller_data res ! 0 ! 2 = 3"
proof -
  let ?g = "\<lparr> ma_data = [[1, 2, 3], [4, 100, 6], [7, 8, 9 :: real]],
              ma_mask = [[False, False, False], [False, True, False],
                         [False, False, False]] \<rparr>"
  have h1: "rect (ma_data ?g) 3 3" and h2: "rect (ma_mask ?g) 3 3"
    by (simp_all add: rect_def)
  have h3: "unmasked ?g \<noteq> []"
    by (rule unmasked_nonempty [OF h1 h2, of 0 0]) simp_all
  have m: "ma_mean ?g = 5"
    by (simp add: ma_mean_def unmasked_def)
  from visibility2d_fills_caller_buffer [OF h1 h2 h3, of 3 0]
  obtain res where res: "visibility2d ?g 3 0 = Inr res"
    and msk: "caller_mask res = ma_mask ?g"
    and cells: "\<forall>i < 3. \<forall>j < 3. caller_data res ! i ! j =
              (if ma_mask ?g ! i ! j then ma_mean ?g else ma_data ?g ! i ! j)"
    by blast
  from cells have "caller_data res ! 1 ! 1 = 5" "caller_data res ! 0 ! 2 = 3"
    unfolding m by simp_all
  with res msk show ?thesis by auto
qed

text \<open>The masked cell of the caller's buffer held 100 before the call and holds 5
  after it.\<close>

theorem visibility2d_mutates_counterexample:
  "map_sum id caller_data
     (visibility2d \<lparr> ma_data = [[1, 2, 3], [4, 100, 6], [7, 8, 9]],
                      ma_mask = [[False, False, False], [False, True, False],
                                 [False, False, False]] \<rparr> 3 0) =
     Inr [[1, 2, 3], [4, 5, 6], [7, 8, 9]]
   \<and> [[1, 2, 3], [4, 5, 6], [7, 8, 9]] \<noteq> [[1, 2, 3], [4, 100, 6], [7, 8, 9 :: real]]"
proof -
  let ?g = "\<lparr> ma_data = [[1, 2, 3], [4, 100, 6], [7, 8, 9 :: real]],
              ma_mask = [[False, False, False], [False, True, False],
                         [False, False, False]] \<rparr>"
  have h1: "rect (ma_data ?g) 3 3" and h2: "rect (ma_mask ?g) 3 3"
    by (simp_all add: rect_def)
  have h3: "(0 :: nat) < 3" by simp
  have m: "fill_masked (ma_data ?g) (ma_mask ?g) (ma_mean ?g) = [[1, 2, 3], [4, 5, 6], [7, 8, 9]]"
    by (simp add: ma_mean_def unmasked_def fill_masked_def)
  from visibility2d_returns [OF h1 h2 h3 refl, of 3 0]
  show ?thesis unfolding m by auto
qed

section \<open>Shape of the vertical derivative\<close>

text \<open>
  Claim C6. For an input of shape \<open>(nr, nc)\<close> with at least one row and one column and
  \<open>max nr nc \<ge> 2\<close>, a non-zero sample interval, and the padding size
  \<open>npts = 2 ^ nextpow2 (max nr nc)\<close> (computed by \<^verbatim>\<open>vertical\<close> itself or handed to it), which is
  at least \<open>max nr nc\<close>: \<^verbatim>\<open>vertical\<close> returns; the weighted spectrum handed to \<^verbatim>\<open>ifft2\<close> is
  a square of side \<open>npts\<close>; and the result, the real part of the inverse transform cut
  back to the rows \<open>rdiff .. nr + rdiff - 1\<close> and the columns \<open>cdiff .. nc + cdiff - 1\<close>, has
  the shape \<open>(nr, nc)\<close> of the input. An input of shape \<open>(1, 1)\<close> is excluded: there
  \<open>npts = 1\<close> and \<^verbatim>\<open>wn = 2.0*np.pi/(xint*(npts-1))\<close> divides by zero.
\<close>

theorem vertical_shape:
  assumes "rect (ma_data data) nr nc" "rect (ma_mask data) nr nc"
    and "0 < nr" "0 < nc" "2 \<le> max nr nc" "xint \<noteq> 0"
    and "npts = None \<or> npts = Some (2 ^ nextpow2 (max nr nc))"
  shows "max nr nc \<le> 2 ^ nextpow2 (max nr nc) \<and>
         (\<exists>fz dz. vertical_weighted data npts xint = Inr fz \<and>
            rect fz (2 ^ nextpow2 (max nr nc)) (2 ^ nextpow2 (max nr nc)) \<and>
            vertical data npts xint = Inr dz \<and> rect dz nr nc)"
proof -
  let ?N = "(2 :: nat) ^ nextpow2 (max nr nc)"
  have N: "?N = vertical_npts nr nc npts"
    using assms(7) by (auto simp: vertical_npts_default)
  have le: "max nr nc \<le> ?N" by (rule nextpow2_upper)
  have "2 \<le> ?N" by (rule pow2_nextpow2_ge2 [OF assms(5)])
  then have "int ?N - 1 \<noteq> 0" by linarith
  with assms(6) have nz: "xint * (int ?N - 1) \<noteq> 0" by simp
  from le vertical_Inr [OF assms(1,3,4) N le nz assms(2)] show ?thesis by blast
qed

theorem vertical_shape_witness:
  "\<exists>dz. vertical \<lparr> ma_data = [[1, 2, 3], [4, 5, 6]],
                     ma_mask = [[False, False, False], [False, True, False]] \<rparr> None 1 = Inr dz \<and>
        rect dz 2 3"
proof -
  let ?g = "\<lparr> ma_data = [[1, 2, 3], [4, 5, 6 :: real]],
              ma_mask = [[False, False, False], [False, True, False]] \<rparr>"
  have h1: "rect (ma_data ?g) 2 3" and h2: "rect (ma_mask ?g) 2 3"
    by (simp_all add: rect_def)
  have h3: "(0 :: nat) < 2" and h4: "(0 :: nat) < 3" and h5: "(2 :: nat) \<le> max 2 3"
    and h6: "(1 :: int) \<noteq> 0"
    by simp_all
  have h7: "(None :: nat option) = None \<or> None = Some (2 ^ nextpow2 (max 2 3))" by simp
  from vertical_shape [OF h1 h2 h3 h4 h5 h6 h7] show ?thesis by blast
qed

text \<open>A grid of one cell: the padding size is 1 and the call raises
  ZeroDivisionError instead of returning an array of shape \<open>(1, 1)\<close>.\<close>

theorem vertical_one_cell_counterexample:
  "vertical \<lparr> ma_data = [[5]], ma_mask = [[False]] \<rparr> None 1 = Inl ZeroDivisionError"
  by (simp add: vertical_def vertical_weighted_def bind_e_def np_shape_def vertical_npts_def
        vertical_pads_def nextpow2_one Let_def)

section \<open>The frequency weighting\<close>

text \<open>
  Claim C7. Whenever the weighting loop of \<^verbatim>\<open>vertical\<close> is reached, the divisor
  \<open>xint * (npts - 1)\<close> of \<open>wn\<close>, the only division, is not 0, and every bin \<open>(i, j)\<close> of the
  shifted spectrum \<^verbatim>\<open>f = fftshift(fft2(data1))\<close> is multiplied by
  \<open>sqrt (freqx * freqx + freqy * freqy)\<close> with \<open>freqx = (i + 1 - (npts / 2 + 1)) * wn\<close> and
  \<open>freqy = (j + 1 - (npts / 2 + 1)) * wn\<close>; the second \<^verbatim>\<open>fftshift\<close> stores the product at
  \<open>((i + npts div 2) mod npts, (j + npts div 2) mod npts)\<close> of the array handed to \<^verbatim>\<open>ifft2\<close>.
  The zero frequency, the entry \<open>(0, 0)\<close> of the transform, is the bin
  \<open>(npts div 2, npts div 2)\<close> of the shifted spectrum. When \<open>npts\<close> is even, as is the power
  of two that \<^verbatim>\<open>vertical\<close> computes and that \<^verbatim>\<open>tilt1\<close> passes, \<open>freqx\<close> and \<open>freqy\<close> of that
  bin are exactly 0 and the weighted bin, the entry \<open>(0, 0)\<close> of the array handed to
  \<^verbatim>\<open>ifft2\<close>, is exactly 0.
\<close>

theorem frequency_weighting:
  assumes "rect (ma_data data) nr nc" "rect (ma_mask data) nr nc"
    and "N = vertical_npts nr nc npts"
    and "vertical_weighted data npts xint = Inr fz"
  shows "xint * (int N - 1) \<noteq> 0 \<and>
    (\<forall>i<N. \<forall>j<N.
       fz ! ((i + N div 2) mod N) ! ((j + N div 2) mod N) =
       fftshift (vertical_fft data npts) ! i ! j *
       complex_of_real (sqrt
         ((real i + 1 - (real N / 2 + 1)) * (2 * pi / real_of_int (xint * (int N - 1))) *
          ((real i + 1 - (real N / 2 + 1)) * (2 * pi / real_of_int (xint * (int N - 1)))) +
          (real j + 1 - (real N / 2 + 1)) * (2 * pi / real_of_int (xint * (int N - 1))) *
          ((real j + 1 - (real N / 2 + 1)) * (2 * pi / real_of_int (xint * (int N - 1))))))) \<and>
    fftshift (vertical_fft data npts) ! (N div 2) ! (N div 2) = vertical_fft data npts ! 0 ! 0 \<and>
    (even N \<longrightarrow>
       (real (N div 2) + 1 - (real N / 2 + 1)) * (2 * pi / real_of_int (xint * (int N - 1))) = 0 \<and>
       fz ! 0 ! 0 = 0)"
proof -
  note d = vertical_weighted_InrD [OF assms(1,4,3)]
  have Npos: "0 < N" using d(1,3) by simp
  obtain f where f: "rect f N N" "f = fftshift (vertical_fft data npts)"
    and eq: "vertical_weighted data npts xint =
       Inr (fftshift (tabulate2d N N (\<lambda>i j. f ! i ! j * complex_of_real (radial_freq N xint i j))))"
    by (rule vertical_weighted_Inr [OF assms(1) d(1,2) assms(3) d(3,4) assms(2)])
  let ?W = "tabulate2d N N (\<lambda>i j. f ! i ! j * complex_of_real (radial_freq N xint i j))"
  have fz: "fz = fftshift ?W" using eq assms(4) by simp
  have rF: "rect (vertical_fft data npts) N N"
  proof -
    have "rect (fftshift f) N N" by (rule fftshift_rect [OF f(1)])
    then show ?thesis
      unfolding f(2) by (auto simp: rect_def fftshift_def fftshift1_def list_all_iff)
  qed
  have bins: "fz ! ((i + N div 2) mod N) ! ((j + N div 2) mod N) =
       fftshift (vertical_fft data npts) ! i ! j *
       complex_of_real (sqrt
         ((real i + 1 - (real N / 2 + 1)) * (2 * pi / real_of_int (xint * (int N - 1))) *
          ((real i + 1 - (real N / 2 + 1)) * (2 * pi / real_of_int (xint * (int N - 1)))) +
          (real j + 1 - (real N / 2 + 1)) * (2 * pi / real_of_int (xint * (int N - 1))) *
          ((real j + 1 - (real N / 2 + 1)) * (2 * pi / real_of_int (xint * (int N - 1))))))"
    if "i < N" "j < N" for i j
    unfolding fz fftshift_stored [OF tabulate2d_rect that] tabulate2d_nth [OF that]
      f(2) radial_freq_def Let_def ..
  have zero: "fftshift (vertical_fft data npts) ! (N div 2) ! (N div 2) = vertical_fft data npts ! 0 ! 0"
    by (rule fftshift_zero_bin [OF rF Npos])
  have ev: "(real (N div 2) + 1 - (real N / 2 + 1)) * (2 * pi / real_of_int (xint * (int N - 1))) = 0 \<and>
       fz ! 0 ! 0 = 0" if "even N"
  proof -
    have r: "real (N div 2) = real N / 2"
      using that by (auto elim: evenE)
    have fac: "(real (N div 2) + 1 - (real N / 2 + 1)) * (2 * pi / real_of_int (xint * (int N - 1))) = 0"
      unfolding r by simp
    have half: "N div 2 < N" using Npos by simp
    have "N div 2 + N div 2 = N"
      using that by (auto elim: evenE)
    then have "(N div 2 + N div 2) mod N = 0"
      by simp
    with bins [OF half half] have "fz ! 0 ! 0 = fftshift (vertical_fft data npts) ! (N div 2) ! (N div 2) *
        complex_of_real (sqrt (0 * 0 + 0 * 0))"
      unfolding fac by simp
    then have "fz ! 0 ! 0 = 0" by simp
    with fac show ?thesis by simp
  qed
  from d(4) bins zero ev show ?thesis by blast
qed

theorem frequency_weighting_witness:
  "\<exists>fz. vertical_weighted \<lparr> ma_data = [[1, 2], [4, 6]],
                            ma_mask = [[False, False], [False, False]] \<rparr> None 1 = Inr fz \<and>
        fz ! 1 ! 1 =
          fftshift (vertical_fft \<lparr> ma_data = [[1, 2], [4, 6]],
                                  ma_mask = [[False, False], [False, False]] \<rparr> None) ! 0 ! 0 *
          complex_of_real (sqrt (2 * pi * (2 * pi) + 2 * pi * (2 * pi))) \<and>
        fz ! 0 ! 0 = 0"
proof -
  let ?g = "\<lparr> ma_data = [[1, 2], [4, 6 :: real]], ma_mask = [[False, False], [False, False]] \<rparr>"
  have h1: "rect (ma_data ?g) 2 2" and h2: "rect (ma_mask ?g) 2 2"
    by (simp_all add: rect_def)
  have p: "nextpow2 2 = 1"
    by (simp add: nextpow2.simps [of 2] nextpow2_one)
  have N: "(2 :: nat) = vertical_npts 2 2 None"
    by (simp add: vertical_npts_default p)
  have nz: "(1 :: int) * (int 2 - 1) \<noteq> 0" by simp
  from vertical_Inr [OF h1 _ _ N _ nz h2]
  obtain fz where fz: "vertical_weighted ?g None 1 = Inr fz" by auto
  note t = frequency_weighting [OF h1 h2 N fz]
  from t have "fz ! 0 ! 0 = 0" by simp
  moreover have z2: "(0 :: nat) < 2" by simp
  from t [THEN conjunct2, THEN conjunct1, rule_format, OF z2 z2]
  have "fz ! ((0 + 2 div 2) mod 2) ! ((0 + 2 div 2) mod 2) =
       fftshift (vertical_fft ?g None) ! 0 ! 0 *
       complex_of_real (sqrt
         ((real 0 + 1 - (real 2 / 2 + 1)) * (2 * pi / real_of_int (1 * (int 2 - 1))) *
          ((real 0 + 1 - (real 2 / 2 + 1)) * (2 * pi / real_of_int (1 * (int 2 - 1)))) +
          (real 0 + 1 - (real 2 / 2 + 1)) * (2 * pi / real_of_int (1 * (int 2 - 1))) *
          ((real 0 + 1 - (real 2 / 2 + 1)) * (2 * pi / real_of_int (1 * (int 2 - 1))))))" .
  then have "fz ! 1 ! 1 = fftshift (vertical_fft ?g None) ! 0 ! 0 *
          complex_of_real (sqrt (2 * pi * (2 * pi) + 2 * pi * (2 * pi)))"
    by simp
  ultimately show ?thesis using fz by blast
qed

text \<open>An odd padding size handed to \<^verbatim>\<open>vertical\<close>: with \<open>npts = 3\<close> the centre
  \<^verbatim>\<open>cx = npts/2+1\<close> is 2.5, the factor of the zero-frequency bin \<open>(1, 1)\<close> is
  \<open>sqrt 2 * pi / 2\<close>, and on a grid whose transform has the zero-frequency entry 9 the
  weighted bin, stored at \<open>(2, 2)\<close>, is not 0.\<close>

theorem odd_padding_counterexample:
  "radial_freq 3 1 1 1 = sqrt 2 * pi / 2 \<and>
   map_sum id (\<lambda>fz. fz ! 2 ! 2)
     (vertical_weighted
        \<lparr> ma_data = [[0, 0, 0], [0, 0, 0], [0, 0, 9]],
          ma_mask = [[False, False, False], [False, False, False], [False, False, False]] \<rparr>
        (Some 3) 1) = Inr (9 * complex_of_real (sqrt 2 * pi / 2))"
proof -
  let ?g = "\<lparr> ma_data = [[0, 0, 0], [0, 0, 0], [0, 0, 9 :: real]],
          ma_mask = [[False, False, False], [False, False, False], [False, False, False]] \<rparr>"
  have h1: "rect (ma_data ?g) 3 3" and h2: "rect (ma_mask ?g) 3 3"
    by (simp_all add: rect_def)
  have N: "(3 :: nat) = vertical_npts 3 3 (Some 3)"
    by (simp add: vertical_npts_default)
  have nz: "(1 :: int) * (int 3 - 1) \<noteq> 0" by simp
  have "real 3 / 2 + 1 = 5 / 2" by simp
  have "sqrt (pi / 2 * (pi / 2) + pi / 2 * (pi / 2)) = sqrt 2 * pi / 2"
  proof -
    have "pi / 2 * (pi / 2) + pi / 2 * (pi / 2) = (sqrt 2 * pi / 2)\<^sup>2"
      by (simp add: power2_eq_square field_simps)
    then show ?thesis by simp
  qed
  then have rf: "radial_freq 3 1 1 1 = sqrt 2 * pi / 2"
    by (simp add: radial_freq_def Let_def)
  obtain f where f: "rect f 3 3" "f = fftshift (vertical_fft ?g (Some 3))"
    and eq: "vertical_weighted ?g (Some 3) 1 =
       Inr (fftshift (tabulate2d 3 3 (\<lambda>i j. f ! i ! j * complex_of_real (radial_freq 3 1 i j))))"
    by (rule vertical_weighted_Inr [OF h1 _ _ N _ nz h2]) simp_all
  have rF: "rect (vertical_fft ?g (Some 3)) 3 3"
  proof -
    have "rect (fftshift f) 3 3" by (rule fftshift_rect [OF f(1)])
    then show ?thesis
      unfolding f(2) by (auto simp: rect_def fftshift_def fftshift1_def list_all_iff)
  qed
  have f11: "f ! 1 ! 1 = 9"
    using fftshift_zero_bin [OF rF] three_by_three unfolding f(2) by simp
  have i: "(1 :: nat) < 3" by simp
  have s: "(1 + 3 div 2) mod 3 = (2 :: nat)" by simp
  have "fftshift (tabulate2d 3 3 (\<lambda>i j. f ! i ! j * complex_of_real (radial_freq 3 1 i j))) ! 2 ! 2
      = f ! 1 ! 1 * complex_of_real (radial_freq 3 1 1 1)"
    using fftshift_stored [OF tabulate2d_rect i i,
        of "\<lambda>i j. f ! i ! j * complex_of_real (radial_freq 3 1 i j)"]
    unfolding s tabulate2d_nth [OF i i] .
  then show ?thesis
    unfolding eq rf f11 by simp
qed

section \<open>A grid smaller than the window\<close>

text \<open>
  Claim C9. \<^verbatim>\<open>visibility2d\<close> does not compare the grid with the window and has no failure
  for a grid that is too small: when the grid has no more than \<open>2 w2\<close> rows, or no more
  than \<open>2 w2\<close> columns (\<open>w2 = floor (wsize / 2)\<close>), so that no cell has a full window, the
  loops over the interior are empty, the slices \<^verbatim>\<open>[w2:nr-w2, w2:nc-w2]\<close> are empty, and the
  call returns three arrays without any cell.
\<close>

theorem visibility2d_small_grid_returns_empty:
  assumes "rect (ma_data data) R C" "rect (ma_mask data) R C" "0 < R"
    and "w2 = nat (\<bar>wsize\<bar> div 2)"
    and "R \<le> 2 * w2 \<or> C \<le> 2 * w2"
  shows "\<exists>res. visibility2d data wsize dh = Inr res \<and>
           concat (ma_data (vtot res)) = [] \<and>
           concat (ma_data (vstd res)) = [] \<and>
           concat (ma_data (vsum res)) = []"
proof -
  from visibility2d_returns [OF assms(1-4), of dh]
  obtain res where res: "visibility2d data wsize dh = Inr res"
    and sh: "rect (ma_data (vtot res)) (R - 2 * w2) (C - 2 * w2)"
      "rect (ma_data (vstd res)) (R - 2 * w2) (C - 2 * w2)"
      "rect (ma_data (vsum res)) (R - 2 * w2) (C - 2 * w2)"
    by blast
  have z: "R - 2 * w2 = 0 \<or> C - 2 * w2 = 0" using assms(5) by auto
  have "concat (ma_data (vtot res)) = []" "concat (ma_data (vstd res)) = []"
    "concat (ma_data (vsum res)) = []"
    by (rule rect_no_cells [OF sh(1) z], rule rect_no_cells [OF sh(2) z],
        rule rect_no_cells [OF sh(3) z])
  with res show ?thesis by blast
qed

theorem visibility2d_small_grid_returns_empty_witness:
  "\<exists>res. visibility2d \<lparr> ma_data = [[1, 2, 3], [4, 5, 6], [7, 8, 9]],
                         ma_mask = replicate 3 (replicate 3 False) \<rparr> 5 1 = Inr res \<and>
         concat (ma_data (vtot res)) = [] \<and>
         concat (ma_data (vstd res)) = [] \<and>
         concat (ma_data (vsum res)) = []"
proof -
  let ?g = "\<lparr> ma_data = [[1, 2, 3], [4, 5, 6], [7, 8, 9 :: real]],
              ma_mask = replicate 3 (replicate 3 False) \<rparr>"
  have h1: "rect (ma_data ?g) 3 3" and h2: "rect (ma_mask ?g) 3 3"
    by (simp_all add: rect_def list_all_iff)
  have h3: "(0 :: nat) < 3" and h4: "(2 :: nat) = nat (\<bar>5 :: int\<bar> div 2)"
    and h5: "(3 :: nat) \<le> 2 * 2 \<or> (3 :: nat) \<le> 2 * 2"
    by simp_all
  from visibility2d_small_grid_returns_empty [OF h1 h2 h3 h4 h5, of 1]
  show ?thesis .
qed

text \<open>A 3 by 3 grid with a window of 5 cells: the call returns, with an empty array of
  total visibility, and not with a failure.\<close>

theorem visibility2d_no_shape_error_counterexample:
  "map_sum id (ma_data \<circ> vtot)
     (visibility2d \<lparr> ma_data = [[1, 2, 3], [4, 5, 6], [7, 8, 9]],
                      ma_mask = replicate 3 (replicate 3 False) \<rparr> 5 1) = Inr []"
proof -
  let ?g = "\<lparr> ma_data = [[1, 2, 3], [4, 5, 6], [7, 8, 9 :: real]],
              ma_mask = replicate 3 (replicate 3 False) \<rparr>"
  have h1: "rect (ma_data ?g) 3 3" and h2: "rect (ma_mask ?g) 3 3"
    by (simp_all add: rect_def list_all_iff)
  have h3: "(0 :: nat) < 3" and h4: "(2 :: nat) = nat (\<bar>5 :: int\<bar> div 2)"
    by simp_all
  from visibility2d_returns [OF h1 h2 h3 h4, of 1]
  show ?thesis by (auto simp: rect_def)
qed

section \<open>The window of three cells: constant output\<close>

text \<open>
  Claim C10. With \<^verbatim>\<open>window_size = 3\<close> the sweeps are called with \<open>nr = 3\<close> and \<open>cp = 2\<close>; the
  guard \<^verbatim>\<open>cp < nr-1\<close> of \<^verbatim>\<open>__visible1\<close> and the guard \<^verbatim>\<open>cp > 2\<close> of \<^verbatim>\<open>__visible2\<close> are
  false, so they return 1 and 0 whatever the window holds. For every grid the total
  visibility is 4 and the standard deviation is \<open>sqrt (2 / 7)\<close> at every output cell.
\<close>

theorem window3_outputs_constant:
  assumes "rect (ma_data data) R C" "rect (ma_mask data) R C"
  shows "visible1 dat 3 2 dh = Inr 1 \<and> visible2 dat 2 dh = Inr 0 \<and>
         (\<exists>res. visibility2d data 3 dh = Inr res \<and>
            ma_data (vtot res) = replicate (R - 2) (replicate (C - 2) 4) \<and>
            ma_data (vstd res) = replicate (R - 2) (replicate (C - 2) (sqrt (2 / 7))))"
  using visible_window3 [of dat dh] visibility2d_window3 [OF assms, of dh]
  by simp

theorem window3_outputs_constant_witness:
  "visible1 [2, 9, 4] 3 2 1 = Inr 1 \<and> visible2 [2, 9, 4] 2 1 = Inr 0 \<and>
   (\<exists>res. visibility2d \<lparr> ma_data = [[1, 2, 3, 4], [8, 5, 6, 1], [7, 8, 9, 0]],
                          ma_mask = [[False, False, False, False], [False, True, False, False],
                                     [False, False, False, False]] \<rparr> 3 1 = Inr res \<and>
          ma_data (vtot res) = [[4, 4]] \<and> ma_data (vstd res) = [[sqrt (2 / 7), sqrt (2 / 7)]])"
proof -
  let ?g = "\<lparr> ma_data = [[1, 2, 3, 4], [8, 5, 6, 1], [7, 8, 9, 0 :: real]],
              ma_mask = [[False, False, False, False], [False, True, False, False],
                         [False, False, False, False]] \<rparr>"
  have h1: "rect (ma_data ?g) 3 4" and h2: "rect (ma_mask ?g) 3 4"
    by (simp_all add: rect_def)
  have r: "replicate (3 - 2) (replicate (4 - 2) x) = [[x, x]]" for x :: real
    by (simp add: numeral_2_eq_2)
  from window3_outputs_constant [OF h1 h2, of "[2, 9, 4]" 1]
  show ?thesis unfolding r by simp
qed

end
